theory Spec2Isabelle
  imports Main "HOL-Library.Sublist" "HOL-Library.Multiset"
begin

section \<open>JavaScript strings\<close>

text \<open>
  A JavaScript string is a sequence of UTF-16 code units. The Korean names of the
  source lie in the Basic Multilingual Plane, one code unit per syllable, so a string
  is modelled as the list of its code units (naturals; no arithmetic is done on them).
  \<open>ascii\<close> embeds an ASCII literal.
\<close>

type_synonym jstring = "nat list"

definition ascii :: "string \<Rightarrow> jstring" where
  "ascii s = map of_char s"

text \<open>The class \<^verbatim>\<open>\s\<close> of a JavaScript regular expression, which is also what
  \<^verbatim>\<open>String.prototype.trim\<close> removes.\<close>

definition is_space :: "nat \<Rightarrow> bool" where
  "is_space c =
     (c = 9 \<or> c = 10 \<or> c = 11 \<or> c = 12 \<or> c = 13 \<or> c = 32 \<or> c = 160 \<or> c = 5760 \<or>
      (8192 \<le> c \<and> c \<le> 8202) \<or> c = 8232 \<or> c = 8233 \<or> c = 8239 \<or> c = 8287 \<or>
      c = 12288 \<or> c = 65279)"

text \<open>The line terminators, which \<^verbatim>\<open>.\<close> does not match.\<close>

definition is_line_terminator :: "nat \<Rightarrow> bool" where
  "is_line_terminator c = (c = 10 \<or> c = 13 \<or> c = 8232 \<or> c = 8233)"

definition trim :: "jstring \<Rightarrow> jstring" where
  "trim s = rev (dropWhile is_space (rev (dropWhile is_space s)))"

text \<open>\<^verbatim>\<open>s.split(/\s+/)\<close>: the pieces between maximal runs of white space; a leading
  or trailing run leaves an empty piece at that end.\<close>

function split_ws :: "jstring \<Rightarrow> jstring list" where
  "split_ws s =
     (let piece = takeWhile (\<lambda>c. \<not> is_space c) s;
          rest = dropWhile (\<lambda>c. \<not> is_space c) s
      in if rest = [] then [piece] else piece # split_ws (dropWhile is_space rest))"
  by pat_completeness auto
termination
proof (relation "measure length")
  show "wf (measure length)" by simp
next
  fix s :: jstring and piece rest
  assume r: "rest = dropWhile (\<lambda>c. \<not> is_space c) s" and ne: "rest \<noteq> []"
  from ne obtain c cs where rc: "rest = c # cs" by (cases rest) auto
  have "length (dropWhile is_space rest) \<le> length cs"
  proof -
    have "dropWhile (\<lambda>c. \<not> is_space c) s \<noteq> []" using ne r by blast
    then have "\<not> (\<lambda>c. \<not> is_space c) (hd (dropWhile (\<lambda>c. \<not> is_space c) s))"
      by (rule hd_dropWhile)
    then have "is_space (hd rest)" unfolding r by simp
    then have "is_space c" by (simp add: rc)
    then show ?thesis by (simp add: rc length_dropWhile_le)
  qed
  moreover have "length rest \<le> length s" using r by (simp add: length_dropWhile_le)
  ultimately show "(dropWhile is_space rest, s) \<in> measure length"
    using rc by simp
qed

declare split_ws.simps [simp del]

text \<open>\<^verbatim>\<open>s.replace(/\(.*?\)/g, '')\<close>: scanning from the left, an opening parenthesis is
  removed together with everything up to the nearest closing parenthesis, unless a line
  terminator or the end of the string comes first.\<close>

fun close_paren :: "jstring \<Rightarrow> jstring option" where
  "close_paren [] = None"
| "close_paren (c # cs) =
     (if c = 41 then Some cs
      else if is_line_terminator c then None
      else close_paren cs)"

lemma close_paren_length: "close_paren cs = Some r \<Longrightarrow> length r < Suc (length cs)"
  by (induction cs) (auto split: if_splits)

function strip_parens :: "jstring \<Rightarrow> jstring" where
  "strip_parens [] = []"
| "strip_parens (c # cs) =
     (if c = 40 then
        (case close_paren cs of
           Some rest \<Rightarrow> strip_parens rest
         | None \<Rightarrow> c # strip_parens cs)
      else c # strip_parens cs)"
  by pat_completeness auto
termination
  by (relation "measure length") (auto dest: close_paren_length)

section \<open>Region resolver (src/lib/server/regions.ts)\<close>

subsection \<open>Korean names used by the source, as code units\<close>

definition seoul :: jstring where "seoul = [0xC11C, 0xC6B8]"
definition busan :: jstring where "busan = [0xBD80, 0xC0B0]"
definition daegu :: jstring where "daegu = [0xB300, 0xAD6C]"
definition incheon :: jstring where "incheon = [0xC778, 0xCC9C]"
definition gwangju :: jstring where "gwangju = [0xAD11, 0xC8FC]"
definition daejeon :: jstring where "daejeon = [0xB300, 0xC804]"
definition ulsan :: jstring where "ulsan = [0xC6B8, 0xC0B0]"
definition sejong :: jstring where "sejong = [0xC138, 0xC885]"
definition gyeonggi :: jstring where "gyeonggi = [0xACBD, 0xAE30]"
definition gangwon :: jstring where "gangwon = [0xAC15, 0xC6D0]"
definition chungbuk :: jstring where "chungbuk = [0xCDA9, 0xBD81]"
definition chungnam :: jstring where "chungnam = [0xCDA9, 0xB0A8]"
definition jeonbuk :: jstring where "jeonbuk = [0xC804, 0xBD81]"
definition jeonnam :: jstring where "jeonnam = [0xC804, 0xB0A8]"
definition gyeongbuk :: jstring where "gyeongbuk = [0xACBD, 0xBD81]"
definition gyeongnam :: jstring where "gyeongnam = [0xACBD, 0xB0A8]"
definition jeju :: jstring where "jeju = [0xC81C, 0xC8FC]"

text \<open>The suffixes: special city, metropolitan city, special self-governing city,
  province, special self-governing province; and the long forms of the provinces whose
  short form is an abbreviation.\<close>

definition teukbyeolsi :: jstring where "teukbyeolsi = [0xD2B9, 0xBCC4, 0xC2DC]"
definition gwangyeoksi :: jstring where "gwangyeoksi = [0xAD11, 0xC5ED, 0xC2DC]"
definition teukbyeol_jachisi :: jstring where
  "teukbyeol_jachisi = [0xD2B9, 0xBCC4, 0xC790, 0xCE58, 0xC2DC]"
definition do_suffix :: jstring where "do_suffix = [0xB3C4]"
definition teukbyeol_jachido :: jstring where
  "teukbyeol_jachido = [0xD2B9, 0xBCC4, 0xC790, 0xCE58, 0xB3C4]"
definition chungcheongbukdo :: jstring where "chungcheongbukdo = [0xCDA9, 0xCCAD, 0xBD81, 0xB3C4]"
definition chungcheongnamdo :: jstring where "chungcheongnamdo = [0xCDA9, 0xCCAD, 0xB0A8, 0xB3C4]"
definition jeollabukdo :: jstring where "jeollabukdo = [0xC804, 0xB77C, 0xBD81, 0xB3C4]"
definition jeollanamdo :: jstring where "jeollanamdo = [0xC804, 0xB77C, 0xB0A8, 0xB3C4]"
definition gyeongsangbukdo :: jstring where "gyeongsangbukdo = [0xACBD, 0xC0C1, 0xBD81, 0xB3C4]"
definition gyeongsangnamdo :: jstring where "gyeongsangnamdo = [0xACBD, 0xC0C1, 0xB0A8, 0xB3C4]"

text \<open>Michuhol-gu (the name since 2018 of the Incheon district coded 23030), Nam-gu
  (its former name), and the one-syllable suffixes gu, gun, si.\<close>

definition michuhol_gu :: jstring where "michuhol_gu = [0xBBF8, 0xCD94, 0xD640, 0xAD6C]"
definition nam_gu :: jstring where "nam_gu = [0xB0A8, 0xAD6C]"
definition gu :: nat where "gu = 0xAD6C"
definition gun :: nat where "gun = 0xAD70"
definition si :: nat where "si = 0xC2DC"

subsection \<open>Property reads on object literals\<close>

text \<open>
  \<^verbatim>\<open>SIDO_CODE_MAP\<close> and \<^verbatim>\<open>SIGUNGU_ALIAS_MAP\<close> are object literals read with
  \<^verbatim>\<open>obj[key]\<close>. Such a read finds the literal's own property, or else a property
  inherited from \<^verbatim>\<open>Object.prototype\<close> (a function or an object, never null), or
  else nothing (\<^verbatim>\<open>undefined\<close>).
\<close>

datatype 'a lookup = Own 'a | Inherited | Absent

definition object_prototype_keys :: "jstring list" where
  "object_prototype_keys = map ascii
     [''constructor'', ''__defineGetter__'', ''__defineSetter__'', ''hasOwnProperty'',
      ''__lookupGetter__'', ''__lookupSetter__'', ''isPrototypeOf'', ''propertyIsEnumerable'',
      ''toString'', ''valueOf'', ''__proto__'', ''toLocaleString'']"

definition js_get :: "(jstring \<times> 'a) list \<Rightarrow> jstring \<Rightarrow> 'a lookup" where
  "js_get obj key =
     (case map_of obj key of
        Some v \<Rightarrow> Own v
      | None \<Rightarrow> if key \<in> set object_prototype_keys then Inherited else Absent)"

subsection \<open>The tables\<close>

definition SIDO_CODE_MAP :: "(jstring \<times> jstring) list" where
  "SIDO_CODE_MAP =
    [(seoul, ascii ''11''), (seoul @ teukbyeolsi, ascii ''11''),
     (busan, ascii ''21''), (busan @ gwangyeoksi, ascii ''21''),
     (daegu, ascii ''22''), (daegu @ gwangyeoksi, ascii ''22''),
     (incheon, ascii ''23''), (incheon @ gwangyeoksi, ascii ''23''),
     (gwangju, ascii ''24''), (gwangju @ gwangyeoksi, ascii ''24''),
     (daejeon, ascii ''25''), (daejeon @ gwangyeoksi, ascii ''25''),
     (ulsan, ascii ''26''), (ulsan @ gwangyeoksi, ascii ''26''),
     (sejong, ascii ''29''), (sejong @ teukbyeol_jachisi, ascii ''29''),
     (gyeonggi, ascii ''31''), (gyeonggi @ do_suffix, ascii ''31''),
     (gangwon, ascii ''32''), (gangwon @ do_suffix, ascii ''32''),
     (gangwon @ teukbyeol_jachido, ascii ''32''),
     (chungbuk, ascii ''33''), (chungcheongbukdo, ascii ''33''),
     (chungnam, ascii ''34''), (chungcheongnamdo, ascii ''34''),
     (jeonbuk, ascii ''35''), (jeollabukdo, ascii ''35''),
     (jeonbuk @ teukbyeol_jachido, ascii ''35''),
     (jeonnam, ascii ''36''), (jeollanamdo, ascii ''36''),
     (gyeongbuk, ascii ''37''), (gyeongsangbukdo, ascii ''37''),
     (gyeongnam, ascii ''38''), (gyeongsangnamdo, ascii ''38''),
     (jeju, ascii ''39''), (jeju @ do_suffix, ascii ''39''),
     (jeju @ teukbyeol_jachido, ascii ''39'')]"

definition SIGUNGU_ALIAS_MAP :: "(jstring \<times> jstring list) list" where
  "SIGUNGU_ALIAS_MAP =
    [(michuhol_gu, [nam_gu]),
     (incheon @ michuhol_gu, [nam_gu, incheon @ nam_gu]),
     (incheon @ nam_gu, [nam_gu, michuhol_gu])]"

subsection \<open>Normalisation and alias expansion\<close>

definition normalizeKorean :: "jstring \<Rightarrow> jstring" where
  "normalizeKorean v = trim (filter (\<lambda>c. \<not> is_space c) (strip_parens v))"

datatype js_error = TypeError

text \<open>\<^verbatim>\<open>SIGUNGU_ALIAS_MAP[norm] ?? []\<close> keeps an inherited property, and calling
  \<^verbatim>\<open>.map\<close> on it throws.\<close>

definition expandSigunguAliases :: "jstring \<Rightarrow> js_error + jstring list" where
  "expandSigunguAliases candidate =
     (let norm = normalizeKorean candidate in
      case js_get SIGUNGU_ALIAS_MAP norm of
        Own aliases \<Rightarrow> Inr (norm # map normalizeKorean aliases)
      | Absent \<Rightarrow> Inr [norm]
      | Inherited \<Rightarrow> Inl TypeError)"

subsection \<open>The gazetteer and its cache\<close>

record feature =
  f_code :: "jstring option"
  f_name :: "jstring option"

record municipality =
  m_code :: jstring
  m_name :: jstring
  m_norm :: jstring

definition parse_feature :: "feature \<Rightarrow> municipality" where
  "parse_feature f =
     (let c = (case f_code f of None \<Rightarrow> [] | Some x \<Rightarrow> x);
          n = (case f_name f of None \<Rightarrow> [] | Some x \<Rightarrow> x)
      in \<lparr>m_code = c, m_name = n, m_norm = normalizeKorean n\<rparr>)"

text \<open>The process-wide cache \<^verbatim>\<open>municipalitiesCache\<close> is threaded explicitly: the
  function takes the parsed file and the cache, and returns the gazetteer and the cache
  it leaves.\<close>

definition readMunicipalities ::
  "feature list \<Rightarrow> municipality list option \<Rightarrow> municipality list \<times> municipality list option" where
  "readMunicipalities parsed cache =
     (case cache of
        Some ms \<Rightarrow> (ms, cache)
      | None \<Rightarrow>
          (let ms = filter (\<lambda>item. m_code item \<noteq> [] \<and> m_name item \<noteq> []) (map parse_feature parsed)
           in (ms, Some ms)))"

subsection \<open>Province and municipality resolution\<close>

text \<open>The result \<open>Own c\<close> is the code \<open>c\<close>, \<open>Absent\<close> is \<^verbatim>\<open>null\<close>, and
  \<open>Inherited\<close> is the non-string value the lookup returns for a key of
  \<^verbatim>\<open>Object.prototype\<close>.\<close>

definition resolveSidoCode :: "jstring option \<Rightarrow> jstring lookup" where
  "resolveSidoCode sidoName =
     (case sidoName of
        None \<Rightarrow> Absent
      | Some n \<Rightarrow> if n = [] then Absent else js_get SIDO_CODE_MAP (normalizeKorean n))"

definition set_add :: "'a list \<Rightarrow> 'a \<Rightarrow> 'a list" where
  "set_add xs x = (if x \<in> set xs then xs else xs @ [x])"

definition extractSigunguCandidates :: "jstring option \<Rightarrow> jstring list" where
  "extractSigunguCandidates address =
     (case address of
        None \<Rightarrow> []
      | Some a \<Rightarrow>
          if a = [] then []
          else
            (let tokens = filter (\<lambda>t. t \<noteq> []) (map trim (split_ws a)) in
             if length tokens < 2 then []
             else
               (let second = tokens ! 1;
                    third = (if 2 < length tokens then tokens ! 2 else []);
                    c0 = [];
                    c1 = (if second \<noteq> [] then set_add c0 second else c0);
                    c2 = (if second \<noteq> [] \<and> third \<noteq> [] \<and> suffix [gu] third
                          then set_add c1 (second @ third) else c1);
                    c3 = (if second \<noteq> [] \<and> third \<noteq> [] \<and>
                             (suffix [gun] second \<or> suffix [si] second) \<and> suffix [gu] third
                          then set_add c2 (second @ third) else c2)
                in c3)))"

record sigungu_args =
  arg_sidoCode :: "jstring option"
  arg_sigunguName :: "jstring option"
  arg_address :: "jstring option"

record sigungu_result =
  sigunguCode :: "jstring option"
  sigunguName :: "jstring option"

fun match_expanded :: "municipality list \<Rightarrow> jstring list \<Rightarrow> municipality option" where
  "match_expanded pool [] = None"
| "match_expanded pool (expanded # others) =
     (case find (\<lambda>item. m_norm item = expanded) pool of
        Some exact \<Rightarrow> Some exact
      | None \<Rightarrow>
          (case find (\<lambda>item. suffix expanded (m_norm item) \<or> suffix (m_norm item) expanded) pool of
             Some suffixMatch \<Rightarrow> Some suffixMatch
           | None \<Rightarrow> match_expanded pool others))"

fun match_candidates :: "municipality list \<Rightarrow> jstring list \<Rightarrow> js_error + municipality option" where
  "match_candidates pool [] = Inr None"
| "match_candidates pool (candidate # others) =
     (case expandSigunguAliases candidate of
        Inl e \<Rightarrow> Inl e
      | Inr expandedCandidates \<Rightarrow>
          (case match_expanded pool expandedCandidates of
             Some m \<Rightarrow> Inr (Some m)
           | None \<Rightarrow> match_candidates pool others))"

definition sigungu_pool :: "municipality list \<Rightarrow> jstring option \<Rightarrow> municipality list" where
  "sigungu_pool ms sido =
     filter (\<lambda>item. (case sido of None \<Rightarrow> True | Some s \<Rightarrow> s = [] \<or> prefix s (m_code item))) ms"

definition sigungu_candidates :: "sigungu_args \<Rightarrow> jstring list" where
  "sigungu_candidates args =
     filter (\<lambda>c. c \<noteq> [])
       (map normalizeKorean
          ((case arg_sigunguName args of
              None \<Rightarrow> []
            | Some n \<Rightarrow> if n \<noteq> [] then [n] else [])
           @ extractSigunguCandidates (arg_address args)))"

definition resolve_in :: "municipality list \<Rightarrow> sigungu_args \<Rightarrow> js_error + sigungu_result" where
  "resolve_in ms args =
     (let pool = sigungu_pool ms (arg_sidoCode args);
          candidates = sigungu_candidates args
      in if candidates = [] then Inr \<lparr>sigunguCode = None, sigunguName = arg_sigunguName args\<rparr>
         else
           (case match_candidates pool candidates of
              Inl e \<Rightarrow> Inl e
            | Inr (Some m) \<Rightarrow> Inr \<lparr>sigunguCode = Some (m_code m), sigunguName = Some (m_name m)\<rparr>
            | Inr None \<Rightarrow>
                Inr \<lparr>sigunguCode = None,
                     sigunguName = (case arg_sigunguName args of
                                      Some n \<Rightarrow> Some n
                                    | None \<Rightarrow> Some (hd candidates))\<rparr>))"

definition resolveSigunguCode ::
  "feature list \<Rightarrow> municipality list option \<Rightarrow> sigungu_args \<Rightarrow>
     (js_error + sigungu_result) \<times> municipality list option" where
  "resolveSigunguCode parsed cache args =
     (let (ms, cache') = readMunicipalities parsed cache
      in (resolve_in ms args, cache'))"

section \<open>Storage (supabase/migrations/20260218_create_vote_domain.sql)\<close>

text \<open>
  A table is the list of its rows. Identifiers of type \<^verbatim>\<open>uuid\<close> and columns of type
  \<^verbatim>\<open>text\<close> are strings; a nullable column is an \<open>option\<close>; \<^verbatim>\<open>timestamptz\<close> is a
  natural number. Constraints are predicates on a table.
\<close>

type_synonym uuid = jstring

record school =
  sc_id :: uuid
  sc_source :: jstring
  sc_school_code :: jstring
  sc_school_name :: jstring
  sc_school_level :: jstring
  sc_campus_type :: "jstring option"
  sc_parent_school_id :: "uuid option"
  sc_sido_name :: "jstring option"
  sc_sido_code :: "jstring option"
  sc_sigungu_name :: "jstring option"
  sc_sigungu_code :: "jstring option"
  sc_address :: "jstring option"
  sc_is_active :: bool

record vote_option =
  o_topic_id :: jstring
  o_option_key :: jstring
  o_option_label :: jstring
  o_position :: int

record vote =
  v_id :: uuid
  v_topic_id :: jstring
  v_option_key :: jstring
  v_user_id :: "uuid option"
  v_guest_token :: "jstring option"
  v_school_id :: uuid
  v_aggregate_school_id :: uuid
  v_birth_year :: int
  v_gender :: jstring
  v_sido_code :: "jstring option"
  v_sigungu_code :: "jstring option"
  v_merged_from_guest :: bool
  v_created_at :: nat

text \<open>The columns of \<^verbatim>\<open>public.users\<close> that hold the stored profile
  (20260218_extend_users_and_guest_merge.sql).\<close>

record user_row =
  u_id :: uuid
  u_birth_year :: "int option"
  u_gender :: "jstring option"
  u_school_id :: "uuid option"
  u_sido_code :: "jstring option"
  u_sigungu_code :: "jstring option"

record database =
  db_schools :: "school list"
  db_vote_options :: "vote_option list"
  db_votes :: "vote list"
  db_users :: "user_row list"

subsection \<open>Constraints of \<^verbatim>\<open>vote_options\<close> and \<^verbatim>\<open>votes\<close>\<close>

definition vote_options_pkey :: "vote_option list \<Rightarrow> bool" where
  "vote_options_pkey os = distinct (map (\<lambda>opt. (o_topic_id opt, o_option_key opt)) os)"

definition vote_options_topic_position_key :: "vote_option list \<Rightarrow> bool" where
  "vote_options_topic_position_key os = distinct (map (\<lambda>opt. (o_topic_id opt, o_position opt)) os)"

definition vote_options_position_check :: "vote_option list \<Rightarrow> bool" where
  "vote_options_position_check os = list_all (\<lambda>opt. o_position opt = 1 \<or> o_position opt = 2) os"

definition votes_pkey :: "vote list \<Rightarrow> bool" where
  "votes_pkey vs = distinct (map v_id vs)"

definition votes_topic_option_fk :: "vote_option list \<Rightarrow> vote list \<Rightarrow> bool" where
  "votes_topic_option_fk os vs =
     list_all (\<lambda>v. list_ex (\<lambda>opt. o_topic_id opt = v_topic_id v \<and> o_option_key opt = v_option_key v) os) vs"

definition votes_identity_check :: "vote \<Rightarrow> bool" where
  "votes_identity_check v =
     ((v_user_id v \<noteq> None \<and> v_guest_token v = None) \<or>
      (v_user_id v = None \<and> v_guest_token v \<noteq> None))"

definition votes_topic_user_uidx :: "vote list \<Rightarrow> bool" where
  "votes_topic_user_uidx vs =
     distinct (map (\<lambda>v. (v_topic_id v, v_user_id v)) (filter (\<lambda>v. v_user_id v \<noteq> None) vs))"

definition votes_topic_guest_uidx :: "vote list \<Rightarrow> bool" where
  "votes_topic_guest_uidx vs =
     distinct (map (\<lambda>v. (v_topic_id v, v_guest_token v)) (filter (\<lambda>v. v_guest_token v \<noteq> None) vs))"

section \<open>Region aggregation engine\<close>

datatype RegionLevel = Sido | Sigungu

datatype RegionWinner = A | B | TIE

record RegionVoteStat =
  winner :: RegionWinner
  total :: nat
  countA :: nat
  countB :: nat

text \<open>\<^verbatim>\<open>RegionVoteMap\<close>, a JavaScript object used as a dictionary from region code to
  statistics, is the finite map of its own entries: what \<^verbatim>\<open>Object.keys\<close> counts and the
  response carries.

  An assignment \<^verbatim>\<open>statsByCode[regionCode] = {...}\<close> creates or replaces the entry, with one
  exception: for the key \<^verbatim>\<open>__proto__\<close> it replaces the prototype of the object and stores
  no entry. A read \<^verbatim>\<open>statsByCode[regionCode]\<close> of a key without an entry gives
  \<^verbatim>\<open>undefined\<close> or a value inherited from the prototype (a method of
  \<^verbatim>\<open>Object.prototype\<close>, or a field of the entry a \<^verbatim>\<open>__proto__\<close> assignment made the
  prototype); for every key but \<^verbatim>\<open>__proto__\<close> such a value has no field \<^verbatim>\<open>countA\<close>,
  \<^verbatim>\<open>countB\<close> or \<^verbatim>\<open>total\<close>, so the \<^verbatim>\<open>?? 0\<close> of the loop body reads zero, as from
  the default entry. Under \<^verbatim>\<open>__proto__\<close> the counts live in the prototype and never
  become an entry.\<close>

type_synonym RegionVoteMap = "jstring \<rightharpoonup> RegionVoteStat"

definition assign_entry :: "RegionVoteMap \<Rightarrow> jstring \<Rightarrow> RegionVoteStat \<Rightarrow> RegionVoteMap" where
  "assign_entry statsByCode regionCode stat =
     (if regionCode = ascii ''__proto__'' then statsByCode else statsByCode(regionCode \<mapsto> stat))"

subsection \<open>Fast path, in the database: \<^verbatim>\<open>get_region_vote_stats\<close>\<close>

record RegionStatsRpcRow =
  region :: "jstring option"
  r_total :: nat
  count_a :: nat
  count_b :: nat
  r_winner :: jstring

definition nullif :: "jstring option \<Rightarrow> jstring \<Rightarrow> jstring option" where
  "nullif x y = (if x = Some y then None else x)"

text \<open>The common table expression \<^verbatim>\<open>scoped\<close>: votes of the topic joined with their
  option, reduced to a region and a position.\<close>

definition scoped :: "database \<Rightarrow> jstring \<Rightarrow> RegionLevel \<Rightarrow> (jstring option \<times> int) list" where
  "scoped d p_topic_id p_level =
     [(case p_level of
         Sigungu \<Rightarrow> nullif (v_sigungu_code v) []
       | Sido \<Rightarrow> nullif (v_sido_code v) [],
       o_position opt).
        v \<leftarrow> db_votes d, opt \<leftarrow> db_vote_options d,
        o_topic_id opt = v_topic_id v \<and> o_option_key opt = v_option_key v \<and> v_topic_id v = p_topic_id]"

text \<open>The common table expression \<^verbatim>\<open>agg\<close>, one row per non-null region, followed by
  the final select, which adds the winner.\<close>

definition agg :: "(jstring option \<times> int) list \<Rightarrow> (jstring \<times> nat \<times> nat \<times> nat) list" where
  "agg sc =
     map (\<lambda>r. let grp = filter (\<lambda>(x, p). x = Some r) sc
              in (r, length grp,
                  sum_list (map (\<lambda>(x, p). if p = 1 then 1 else 0) grp),
                  sum_list (map (\<lambda>(x, p). if p = 2 then 1 else 0) grp)))
       (remdups [r. (Some r, p) \<leftarrow> sc])"

definition get_region_vote_stats :: "database \<Rightarrow> jstring \<Rightarrow> RegionLevel \<Rightarrow> RegionStatsRpcRow list" where
  "get_region_vote_stats d p_topic_id p_level =
     map (\<lambda>(r, t, a, b).
            \<lparr>region = Some r, r_total = t, count_a = a, count_b = b,
             r_winner = (if a > b then ascii ''A'' else if b > a then ascii ''B'' else ascii ''TIE'')\<rparr>)
       (agg (scoped d p_topic_id p_level))"

subsection \<open>Fast path, in the route handler\<close>

text \<open>\<^verbatim>\<open>normalizeInt\<close> on a finite number, which is what the \<^verbatim>\<open>bigint\<close> columns of
  the function arrive as.\<close>

definition normalizeInt :: "nat \<Rightarrow> nat" where
  "normalizeInt v = v"

definition rpc_row_step :: "RegionStatsRpcRow \<Rightarrow> RegionVoteMap \<Rightarrow> RegionVoteMap" where
  "rpc_row_step row statsByCode =
     (let regionCode = trim (case region row of None \<Rightarrow> [] | Some r \<Rightarrow> r) in
      if regionCode = [] then statsByCode
      else
        (let cA = normalizeInt (count_a row);
             cB = normalizeInt (count_b row);
             tot = normalizeInt (r_total row);
             w = (if r_winner row = ascii ''A'' then A
                  else if r_winner row = ascii ''B'' then B
                  else TIE)
         in assign_entry statsByCode regionCode
              \<lparr>winner = w, total = tot, countA = cA, countB = cB\<rparr>))"

definition fast_path :: "RegionStatsRpcRow list \<Rightarrow> RegionVoteMap" where
  "fast_path rpcRows = fold rpc_row_step rpcRows Map.empty"

subsection \<open>Slow path\<close>

record linked_school =
  ls_sido_code :: "jstring option"
  ls_sigungu_code :: "jstring option"

datatype school_rel = SchoolNull | SchoolObject linked_school | SchoolArray "linked_school list"

record VoteRow =
  option_key :: jstring
  sido_code :: "jstring option"
  sigungu_code :: "jstring option"
  school :: school_rel

definition pageSize :: nat where
  "pageSize = 1000"

text \<open>The select list of the query of \<^verbatim>\<open>fetchAllVotesByTopic\<close>: three columns of
  the vote and, embedded, the school its \<^verbatim>\<open>school_id\<close> refers to.\<close>

definition select_vote_row :: "database \<Rightarrow> vote \<Rightarrow> VoteRow" where
  "select_vote_row d v =
     \<lparr>option_key = v_option_key v, sido_code = v_sido_code v, sigungu_code = v_sigungu_code v,
      school = (case find (\<lambda>s. sc_id s = v_school_id v) (db_schools d) of
                  None \<Rightarrow> SchoolNull
                | Some s \<Rightarrow> SchoolObject \<lparr>ls_sido_code = sc_sido_code s,
                                          ls_sigungu_code = sc_sigungu_code s\<rparr>)\<rparr>"

text \<open>The query without its range: the topic's votes by creation time.\<close>

definition votes_by_topic :: "database \<Rightarrow> jstring \<Rightarrow> VoteRow list" where
  "votes_by_topic d topicId =
     map (select_vote_row d)
       (sort_key v_created_at (filter (\<lambda>v. v_topic_id v = topicId) (db_votes d)))"

function fetch_pages :: "VoteRow list \<Rightarrow> nat \<Rightarrow> VoteRow list \<Rightarrow> VoteRow list" where
  "fetch_pages result offset collected =
     (let rows = take pageSize (drop offset result);
          collected' = collected @ rows
      in if length rows < pageSize then collected'
         else fetch_pages result (offset + pageSize) collected')"
  by pat_completeness auto
termination
  by (relation "measure (\<lambda>(result, offset, collected). length result - offset)")
     (auto simp: pageSize_def)

declare fetch_pages.simps [simp del]

definition fetchAllVotesByTopic :: "database \<Rightarrow> jstring \<Rightarrow> VoteRow list" where
  "fetchAllVotesByTopic d topicId = fetch_pages (votes_by_topic d topicId) 0 []"

definition normalizeCode :: "jstring option \<Rightarrow> jstring option" where
  "normalizeCode v =
     (case v of
        None \<Rightarrow> None
      | Some s \<Rightarrow>
          if s = [] then None
          else (let trimmed = trim s in if length trimmed > 0 then Some trimmed else None))"

definition resolveSchoolCode :: "school_rel \<Rightarrow> linked_school option" where
  "resolveSchoolCode sch =
     (case sch of
        SchoolNull \<Rightarrow> None
      | SchoolArray xs \<Rightarrow> (case xs of [] \<Rightarrow> None | x # _ \<Rightarrow> Some x)
      | SchoolObject s \<Rightarrow> Some s)"

text \<open>The first lines of the loop body of \<^verbatim>\<open>buildStatsFromVoteRows\<close>: the region
  code a row is counted under, or \<open>None\<close> when the row is skipped.\<close>

definition row_regionCode :: "RegionLevel \<Rightarrow> VoteRow \<Rightarrow> jstring option" where
  "row_regionCode level row =
     (let linkedSchool = resolveSchoolCode (school row);
          regionCodeRaw =
            (case level of
               Sigungu \<Rightarrow>
                 (case sigungu_code row of
                    Some c \<Rightarrow> Some c
                  | None \<Rightarrow> (case linkedSchool of None \<Rightarrow> None | Some s \<Rightarrow> ls_sigungu_code s))
             | Sido \<Rightarrow>
                 (case sido_code row of
                    Some c \<Rightarrow> Some c
                  | None \<Rightarrow> (case linkedSchool of None \<Rightarrow> None | Some s \<Rightarrow> ls_sido_code s)))
      in normalizeCode regionCodeRaw)"

definition stats_step ::
  "RegionLevel \<Rightarrow> jstring \<Rightarrow> jstring \<Rightarrow> VoteRow \<Rightarrow> RegionVoteMap \<times> nat \<times> nat \<Rightarrow> RegionVoteMap \<times> nat \<times> nat" where
  "stats_step level optionA optionB row acc =
     (case acc of (statsByCode, totalA, totalB) \<Rightarrow>
        (case row_regionCode level row of
           None \<Rightarrow> acc
         | Some regionCode \<Rightarrow>
             (let current = (case statsByCode regionCode of
                               Some c \<Rightarrow> c
                             | None \<Rightarrow> \<lparr>winner = TIE, total = 0, countA = 0, countB = 0\<rparr>);
                  nextCountA = countA current + (if option_key row = optionA then 1 else 0);
                  nextCountB = countB current + (if option_key row = optionB then 1 else 0);
                  nextTotal = total current + 1
              in (assign_entry statsByCode regionCode
                    \<lparr>winner = (if nextCountA > nextCountB then A
                               else if nextCountB > nextCountA then B else TIE),
                     total = nextTotal, countA = nextCountA, countB = nextCountB\<rparr>,
                  (if option_key row = optionA then totalA + 1 else totalA),
                  (if option_key row = optionA then totalB
                   else if option_key row = optionB then totalB + 1 else totalB)))))"

record summary =
  totalVotes :: nat
  sum_countA :: nat
  sum_countB :: nat

definition buildStatsFromVoteRows ::
  "VoteRow list \<Rightarrow> RegionLevel \<Rightarrow> jstring \<Rightarrow> jstring \<Rightarrow> RegionVoteMap \<times> summary" where
  "buildStatsFromVoteRows rows level optionA optionB =
     (case fold (stats_step level optionA optionB) rows (Map.empty, 0, 0) of
        (statsByCode, totalA, totalB) \<Rightarrow>
          (statsByCode, \<lparr>totalVotes = totalA + totalB, sum_countA = totalA, sum_countB = totalB\<rparr>))"

datatype http_error = BadRequest | ServerError

text \<open>The part of the handler after the fast path: the two option keys, then the scan.\<close>

definition slow_path ::
  "database \<Rightarrow> jstring \<Rightarrow> RegionLevel \<Rightarrow> http_error + RegionVoteMap \<times> summary" where
  "slow_path d topicId level =
     (let options = sort_key o_position (filter (\<lambda>opt. o_topic_id opt = topicId) (db_vote_options d));
          optionA = map_option o_option_key (find (\<lambda>item. o_position item = 1) options);
          optionB = map_option o_option_key (find (\<lambda>item. o_position item = 2) options)
      in case (optionA, optionB) of
           (Some a, Some b) \<Rightarrow>
             if a = [] \<or> b = [] then Inl BadRequest
             else Inr (buildStatsFromVoteRows (fetchAllVotesByTopic d topicId) level a b)
         | _ \<Rightarrow> Inl BadRequest)"

text \<open>The handler: the fast path when the function returned at least one usable region,
  the slow path otherwise. \<open>rpc\<close> is what the remote call returned: an error, or the rows
  in the order the database chose.\<close>

definition region_stats_GET ::
  "database \<Rightarrow> jstring \<Rightarrow> RegionLevel \<Rightarrow> unit + RegionStatsRpcRow list \<Rightarrow>
     http_error + RegionVoteMap \<times> summary" where
  "region_stats_GET d topicId level rpc =
     (case rpc of
        Inr rpcRows \<Rightarrow>
          (let statsByCode = fast_path rpcRows;
               kept = filter (\<lambda>row. trim (case region row of None \<Rightarrow> [] | Some r \<Rightarrow> r) \<noteq> []) rpcRows;
               totalA = sum_list (map (\<lambda>row. normalizeInt (count_a row)) kept);
               totalB = sum_list (map (\<lambda>row. normalizeInt (count_b row)) kept)
           in if statsByCode \<noteq> Map.empty
              then Inr (statsByCode,
                        \<lparr>totalVotes = totalA + totalB, sum_countA = totalA, sum_countB = totalB\<rparr>)
              else slow_path d topicId level)
      | Inl _ \<Rightarrow> slow_path d topicId level)"

section \<open>Guest-merge operation (20260218_extend_users_and_guest_merge.sql)\<close>

text \<open>
  \<^verbatim>\<open>merge_guest_votes_to_user\<close> is a PL/pgSQL function: it runs in one transaction, an
  exception undoes its writes, and the result is either the error or the new table with
  the two counters. The \<^verbatim>\<open>for\<close> loop reads its rows from the table as it was when the
  loop started; the statements in its body see the writes made so far.
\<close>

datatype db_error =
  RaiseException jstring
| UniqueViolation
| CheckViolation
| ForeignKeyViolation

text \<open>\<^verbatim>\<open>btrim\<close> with one argument removes spaces from both ends.\<close>

definition btrim :: "jstring \<Rightarrow> jstring" where
  "btrim s = rev (dropWhile (\<lambda>c. c = 32) (rev (dropWhile (\<lambda>c. c = 32) s)))"

text \<open>The two statements of the loop body. The update changes the indexed column
  \<^verbatim>\<open>user_id\<close>, so the unique index on \<^verbatim>\<open>(topic_id, user_id)\<close> is checked; the row
  it writes satisfies the identity check by construction.\<close>

definition delete_vote :: "uuid \<Rightarrow> vote list \<Rightarrow> vote list" where
  "delete_vote rid vs = filter (\<lambda>v. v_id v \<noteq> rid) vs"

definition reassign :: "uuid \<Rightarrow> vote \<Rightarrow> vote" where
  "reassign p_user_id v =
     v\<lparr>v_user_id := Some p_user_id, v_guest_token := None, v_merged_from_guest := True\<rparr>"

definition update_vote :: "uuid \<Rightarrow> uuid \<Rightarrow> vote list \<Rightarrow> db_error + vote list" where
  "update_vote rid p_user_id vs =
     (let vs' = map (\<lambda>v. if v_id v = rid then reassign p_user_id v else v) vs
      in if votes_topic_user_uidx vs' then Inr vs' else Inl UniqueViolation)"

definition user_has_vote :: "vote list \<Rightarrow> uuid \<Rightarrow> jstring \<Rightarrow> bool" where
  "user_has_vote vs p_user_id topic =
     list_ex (\<lambda>uv. v_topic_id uv = topic \<and> v_user_id uv = Some p_user_id) vs"

fun merge_loop ::
  "uuid \<Rightarrow> (uuid \<times> jstring) list \<Rightarrow> vote list \<times> nat \<times> nat \<Rightarrow> db_error + vote list \<times> nat \<times> nat" where
  "merge_loop p_user_id [] acc = Inr acc"
| "merge_loop p_user_id ((r_id, r_topic_id) # rs) (vs, v_moved, v_skipped) =
     (if user_has_vote vs p_user_id r_topic_id
      then merge_loop p_user_id rs (delete_vote r_id vs, v_moved, v_skipped + 1)
      else
        (case update_vote r_id p_user_id vs of
           Inl e \<Rightarrow> Inl e
         | Inr vs' \<Rightarrow> merge_loop p_user_id rs (vs', v_moved + 1, v_skipped)))"

definition guest_rows :: "jstring \<Rightarrow> vote list \<Rightarrow> vote list" where
  "guest_rows p_guest_token vs =
     filter (\<lambda>v. v_guest_token v = Some p_guest_token \<and> v_user_id v = None) vs"

definition merge_guest_votes_to_user ::
  "jstring option \<Rightarrow> uuid option \<Rightarrow> vote list \<Rightarrow> db_error + vote list \<times> nat \<times> nat" where
  "merge_guest_votes_to_user p_guest_token p_user_id vs =
     (case p_guest_token of
        None \<Rightarrow> Inl (RaiseException (ascii ''guest token is required''))
      | Some g \<Rightarrow>
          if btrim g = [] then Inl (RaiseException (ascii ''guest token is required''))
          else
            (case p_user_id of
               None \<Rightarrow> Inl (RaiseException (ascii ''user id is required''))
             | Some u \<Rightarrow>
                 merge_loop u (map (\<lambda>v. (v_id v, v_topic_id v)) (guest_rows g vs)) (vs, 0, 0)))"

section \<open>School rows (lib/server/schools.ts)\<close>

text \<open>What a query that ends in \<^verbatim>\<open>maybeSingle()\<close> or \<^verbatim>\<open>single()\<close> sees: no row, one
  row, or several. \<^verbatim>\<open>maybeSingle\<close> reports an error for several rows, \<^verbatim>\<open>single\<close> also
  for none. The operator \<^verbatim>\<open>??\<close> on two nullable values is \<open>coalesce\<close>.\<close>

datatype 'a single = NoRow | OneRow 'a | ManyRows

definition maybeSingle :: "'a list \<Rightarrow> 'a single" where
  "maybeSingle rows = (case rows of [] \<Rightarrow> NoRow | [x] \<Rightarrow> OneRow x | _ \<Rightarrow> ManyRows)"

definition coalesce :: "'a option \<Rightarrow> 'a option \<Rightarrow> 'a option" where
  "coalesce x y = (case x of Some v \<Rightarrow> Some v | None \<Rightarrow> y)"

record SchoolSearchItem =
  it_id :: "jstring option"
  it_source :: jstring
  it_schoolCode :: jstring
  it_schoolName :: jstring
  it_schoolLevel :: jstring
  it_campusType :: "jstring option"
  it_parentSchoolId :: "jstring option"
  it_sidoName :: "jstring option"
  it_sidoCode :: "jstring option"
  it_sigunguName :: "jstring option"
  it_sigunguCode :: "jstring option"
  it_address :: "jstring option"
  it_isActive :: bool

record EnsuredSchool =
  schoolId :: uuid
  aggregateSchoolId :: uuid
  schoolRow :: school

record SchoolIdentity =
  si_schoolId :: uuid
  si_aggregateSchoolId :: uuid
  si_sidoCode :: "jstring option"
  si_sigunguCode :: "jstring option"

subsection \<open>Constraints of \<^verbatim>\<open>schools\<close> and the insert\<close>

definition schools_pkey :: "school list \<Rightarrow> bool" where
  "schools_pkey ss = distinct (map sc_id ss)"

definition schools_source_school_code_key :: "school list \<Rightarrow> bool" where
  "schools_source_school_code_key ss = distinct (map (\<lambda>s. (sc_source s, sc_school_code s)) ss)"

definition schools_checks :: "school \<Rightarrow> bool" where
  "schools_checks s =
     (sc_source s \<in> set [ascii ''nais'', ascii ''local_xls''] \<and>
      sc_school_level s \<in> set [ascii ''middle'', ascii ''high'', ascii ''university'', ascii ''graduate''])"

definition schools_parent_fk :: "school list \<Rightarrow> bool" where
  "schools_parent_fk ss =
     list_all (\<lambda>s. case sc_parent_school_id s of None \<Rightarrow> True | Some p \<Rightarrow> p \<in> set (map sc_id ss)) ss"

text \<open>The database evaluates the check constraints of the new row first, then the unique
  indexes, and the foreign keys at the end of the statement. \<^verbatim>\<open>ForeignKeyViolation\<close> is
  SQLSTATE 23503, \<^verbatim>\<open>UniqueViolation\<close> is 23505, \<^verbatim>\<open>CheckViolation\<close> is 23514.\<close>

definition insert_school :: "school \<Rightarrow> school list \<Rightarrow> db_error + school list" where
  "insert_school row ss =
     (let ss' = ss @ [row]
      in if \<not> schools_checks row then Inl CheckViolation
         else if \<not> (schools_pkey ss' \<and> schools_source_school_code_key ss') then Inl UniqueViolation
         else if \<not> schools_parent_fk ss' then Inl ForeignKeyViolation
         else Inr ss')"

subsection \<open>\<^verbatim>\<open>ensureSchool\<close> and \<^verbatim>\<open>getSchoolIdentityById\<close>\<close>

text \<open>Every \<^verbatim>\<open>throw\<close> of the two functions is a value of \<open>ensure_error\<close>. One outcome is
  outside the model and kept apart as \<open>NonStringSidoCode\<close>: for a province name that is a
  key of \<^verbatim>\<open>Object.prototype\<close>, \<open>resolveSidoCode\<close> returns a function object instead of a
  code, and what the resolver and the database client make of it is not described here.\<close>

datatype ensure_error =
  SelectError
| NonStringSidoCode
| ResolveError js_error
| UpdateError
| InsertError db_error

definition code_or_null :: "jstring lookup \<Rightarrow> ensure_error + jstring option" where
  "code_or_null x = (case x of Own c \<Rightarrow> Inr (Some c) | Absent \<Rightarrow> Inr None | Inherited \<Rightarrow> Inl NonStringSidoCode)"

definition ensured :: "school \<Rightarrow> EnsuredSchool" where
  "ensured row =
     \<lparr>schoolId = sc_id row,
      aggregateSchoolId = (case sc_parent_school_id row of Some p \<Rightarrow> p | None \<Rightarrow> sc_id row),
      schoolRow = row\<rparr>"

text \<open>The branch for a school that is already stored.\<close>

definition ensure_existing ::
  "feature list \<Rightarrow> SchoolSearchItem \<Rightarrow> school \<Rightarrow> school list \<times> municipality list option \<Rightarrow>
     (ensure_error + EnsuredSchool) \<times> school list \<times> municipality list option" where
  "ensure_existing parsed item existing st =
     (case st of (schools, cache) \<Rightarrow>
     (case code_or_null
             (case coalesce (sc_sido_code existing) (it_sidoCode item) of
                Some c \<Rightarrow> Own c
              | None \<Rightarrow> resolveSidoCode (coalesce (it_sidoName item) (sc_sido_name existing))) of
        Inl e \<Rightarrow> (Inl e, schools, cache)
      | Inr nextSidoCode \<Rightarrow>
          (case resolveSigunguCode parsed cache
                  \<lparr>arg_sidoCode = nextSidoCode,
                   arg_sigunguName = coalesce (sc_sigungu_name existing) (it_sigunguName item),
                   arg_address = coalesce (sc_address existing) (it_address item)\<rparr> of
             (Inl e, cache') \<Rightarrow> (Inl (ResolveError e), schools, cache')
           | (Inr resolvedSigungu, cache') \<Rightarrow>
               (let nextSigunguCode =
                      coalesce (sc_sigungu_code existing)
                        (coalesce (it_sigunguCode item) (sigunguCode resolvedSigungu));
                    nextSigunguName =
                      coalesce (sc_sigungu_name existing)
                        (coalesce (it_sigunguName item) (sigunguName resolvedSigungu));
                    needsRegionBackfill =
                      (sc_sido_code existing \<noteq> nextSidoCode \<or>
                       sc_sigungu_code existing \<noteq> nextSigunguCode \<or>
                       sc_sigungu_name existing \<noteq> nextSigunguName)
                in if needsRegionBackfill
                   then
                     (let schools' =
                            map (\<lambda>s. if sc_id s = sc_id existing
                                      then s\<lparr>sc_sido_code := nextSidoCode,
                                             sc_sigungu_code := nextSigunguCode,
                                             sc_sigungu_name := nextSigunguName\<rparr>
                                      else s) schools
                      in case maybeSingle (filter (\<lambda>s. sc_id s = sc_id existing) schools') of
                           OneRow updated \<Rightarrow> (Inr (ensured updated), schools', cache')
                         | _ \<Rightarrow> (Inl UpdateError, schools', cache'))
                   else (Inr (ensured existing), schools, cache')))))"

text \<open>The branch for a school that is not stored yet; \<open>new_id\<close> is the identifier the
  database generates for the row.\<close>

definition ensure_new ::
  "feature list \<Rightarrow> uuid \<Rightarrow> SchoolSearchItem \<Rightarrow> school list \<times> municipality list option \<Rightarrow>
     (ensure_error + EnsuredSchool) \<times> school list \<times> municipality list option" where
  "ensure_new parsed new_id item st =
     (case st of (schools, cache) \<Rightarrow>
     (case code_or_null
             (case it_sidoCode item of
                Some c \<Rightarrow> Own c
              | None \<Rightarrow> resolveSidoCode (it_sidoName item)) of
        Inl e \<Rightarrow> (Inl e, schools, cache)
      | Inr sidoCode \<Rightarrow>
          (case resolveSigunguCode parsed cache
                  \<lparr>arg_sidoCode = sidoCode, arg_sigunguName = it_sigunguName item,
                   arg_address = it_address item\<rparr> of
             (Inl e, cache') \<Rightarrow> (Inl (ResolveError e), schools, cache')
           | (Inr sigunguResolved, cache') \<Rightarrow>
               (let row =
                      \<lparr>sc_id = new_id,
                       sc_source = it_source item,
                       sc_school_code = it_schoolCode item,
                       sc_school_name = it_schoolName item,
                       sc_school_level = it_schoolLevel item,
                       sc_campus_type = it_campusType item,
                       sc_parent_school_id = it_parentSchoolId item,
                       sc_sido_name = it_sidoName item,
                       sc_sido_code = sidoCode,
                       sc_sigungu_name = coalesce (it_sigunguName item) (sigunguName sigunguResolved),
                       sc_sigungu_code = coalesce (it_sigunguCode item) (sigunguCode sigunguResolved),
                       sc_address = it_address item,
                       sc_is_active = it_isActive item\<rparr>
                in case insert_school row schools of
                     Inl e \<Rightarrow> (Inl (InsertError e), schools, cache')
                   | Inr schools' \<Rightarrow> (Inr (ensured row), schools', cache')))))"

definition ensureSchool ::
  "feature list \<Rightarrow> uuid \<Rightarrow> SchoolSearchItem \<Rightarrow> school list \<times> municipality list option \<Rightarrow>
     (ensure_error + EnsuredSchool) \<times> school list \<times> municipality list option" where
  "ensureSchool parsed new_id item st =
     (case maybeSingle
             (filter (\<lambda>s. sc_source s = it_source item \<and> sc_school_code s = it_schoolCode item)
                (fst st)) of
        ManyRows \<Rightarrow> (Inl SelectError, st)
      | OneRow existing \<Rightarrow> ensure_existing parsed item existing st
      | NoRow \<Rightarrow> ensure_new parsed new_id item st)"

definition getSchoolIdentityById :: "uuid \<Rightarrow> school list \<Rightarrow> ensure_error + SchoolIdentity option" where
  "getSchoolIdentityById school_id schools =
     (case maybeSingle (filter (\<lambda>s. sc_id s = school_id) schools) of
        ManyRows \<Rightarrow> Inl SelectError
      | NoRow \<Rightarrow> Inr None
      | OneRow data \<Rightarrow>
          Inr (Some \<lparr>si_schoolId = sc_id data,
                     si_aggregateSchoolId =
                       (case sc_parent_school_id data of Some p \<Rightarrow> p | None \<Rightarrow> sc_id data),
                     si_sidoCode = sc_sido_code data,
                     si_sigunguCode = sc_sigungu_code data\<rparr>))"

section \<open>Vote submission (the \<^verbatim>\<open>POST\<close> handler of the vote route)\<close>

subsection \<open>Request, caller and environment\<close>

record profile_input =
  pr_birthYear :: int
  pr_gender :: jstring
  pr_school :: SchoolSearchItem

record vote_body =
  b_topicId :: jstring
  b_optionKey :: jstring
  b_guestToken :: "jstring option"
  b_profile :: "profile_input option"

text \<open>The body of a request, once \<^verbatim>\<open>request.json()\<close> has read it. \<open>IllTyped\<close> stands for
  every JSON value that does not have the shape of \<open>vote_body\<close> (a missing key, a number
  where a string is expected, \<^verbatim>\<open>null\<close> for the optional token, a fractional year); the
  schema rejects them all. A body that is not JSON at all makes \<^verbatim>\<open>request.json()\<close> throw;
  the handler takes an optional body, \<open>None\<close> for that case.\<close>

datatype request_json = IllTyped | WellTyped vote_body

text \<open>The user the authentication service resolved from the \<^verbatim>\<open>authorization\<close> header, if
  any.\<close>

record auth_user =
  au_id :: uuid
  au_email :: "jstring option"

text \<open>What the handler takes from outside the repository: the gazetteer file, the UUID test
  of the validation library, \<^verbatim>\<open>String.prototype.toLowerCase\<close>, the random token of the
  administrator bypass, and the values the database generates for a new row (identifiers
  and the creation time).\<close>

record env =
  municipalities_file :: "feature list"
  is_uuid :: "jstring \<Rightarrow> bool"
  toLowerCase :: "jstring \<Rightarrow> jstring"
  randomToken :: jstring
  gen_school_id :: uuid
  gen_vote_id :: uuid
  now :: nat

definition ADMIN_UNLIMITED_VOTE_EMAILS :: "jstring list" where
  "ADMIN_UNLIMITED_VOTE_EMAILS = [ascii ''skynkm0307@gmail.com'']"

subsection \<open>Validation\<close>

definition profileSchema :: "env \<Rightarrow> profile_input \<Rightarrow> bool" where
  "profileSchema e p =
     (1900 \<le> pr_birthYear p \<and> pr_birthYear p \<le> 2100 \<and>
      pr_gender p \<in> set [ascii ''male'', ascii ''female'', ascii ''other'', ascii ''prefer_not_to_say''] \<and>
      (case it_id (pr_school p) of None \<Rightarrow> True | Some i \<Rightarrow> is_uuid e i) \<and>
      it_source (pr_school p) \<in> set [ascii ''nais'', ascii ''local_xls''] \<and>
      length (it_schoolCode (pr_school p)) \<ge> 1 \<and>
      length (it_schoolName (pr_school p)) \<ge> 1 \<and>
      it_schoolLevel (pr_school p)
        \<in> set [ascii ''middle'', ascii ''high'', ascii ''university'', ascii ''graduate''] \<and>
      (case it_parentSchoolId (pr_school p) of None \<Rightarrow> True | Some i \<Rightarrow> is_uuid e i))"

definition voteBodySchema :: "env \<Rightarrow> request_json \<Rightarrow> vote_body option" where
  "voteBodySchema e rawBody =
     (case rawBody of
        IllTyped \<Rightarrow> None
      | WellTyped b \<Rightarrow>
          if length (b_topicId b) \<ge> 1 \<and> length (b_optionKey b) \<ge> 1 \<and>
             (case b_guestToken b of None \<Rightarrow> True | Some g \<Rightarrow> is_uuid e g) \<and>
             (case b_profile b of None \<Rightarrow> True | Some p \<Rightarrow> profileSchema e p)
          then Some b else None)"

subsection \<open>The insert into \<^verbatim>\<open>votes\<close>\<close>

text \<open>The constraints of the table in the order the database evaluates them. The foreign key
  from \<^verbatim>\<open>user_id\<close> to \<^verbatim>\<open>auth.users\<close> is left out: that table belongs to the
  authentication service, which has just returned the user.\<close>

definition votes_checks :: "vote \<Rightarrow> bool" where
  "votes_checks v =
     (1900 \<le> v_birth_year v \<and> v_birth_year v \<le> 2100 \<and>
      v_gender v \<in> set [ascii ''male'', ascii ''female'', ascii ''other'', ascii ''prefer_not_to_say''] \<and>
      votes_identity_check v)"

definition votes_school_fk :: "school list \<Rightarrow> vote list \<Rightarrow> bool" where
  "votes_school_fk ss vs =
     list_all (\<lambda>v. v_school_id v \<in> set (map sc_id ss) \<and>
                   v_aggregate_school_id v \<in> set (map sc_id ss)) vs"

definition insert_vote :: "vote \<Rightarrow> database \<Rightarrow> db_error + database" where
  "insert_vote row d =
     (let vs' = db_votes d @ [row]
      in if \<not> votes_checks row then Inl CheckViolation
         else if \<not> (votes_pkey vs' \<and> votes_topic_user_uidx vs' \<and> votes_topic_guest_uidx vs')
           then Inl UniqueViolation
         else if \<not> (votes_school_fk (db_schools d) [row] \<and>
                     votes_topic_option_fk (db_vote_options d) [row])
           then Inl ForeignKeyViolation
         else Inr (d\<lparr>db_votes := vs'\<rparr>))"

subsection \<open>The handler\<close>

text \<open>The response: its status and, for 201, the stored vote.\<close>

datatype post_response = Status201 vote | Status400 | Status409 | Status500

type_synonym server = "database \<times> municipality list option"

text \<open>A string is truthy when it is not empty.\<close>

definition truthy :: "jstring option \<Rightarrow> bool" where
  "truthy x = (case x of None \<Rightarrow> False | Some s \<Rightarrow> s \<noteq> [])"

definition isUnlimitedAdmin :: "env \<Rightarrow> auth_user option \<Rightarrow> bool" where
  "isUnlimitedAdmin e user =
     (let userEmail = (case user of
                         None \<Rightarrow> None
                       | Some u \<Rightarrow> map_option (toLowerCase e) (au_email u))
      in truthy userEmail \<and> the userEmail \<in> set ADMIN_UNLIMITED_VOTE_EMAILS)"

text \<open>The two duplicate checks made before anything is written.\<close>

definition existing_vote :: "env \<Rightarrow> auth_user option \<Rightarrow> vote_body \<Rightarrow> vote list \<Rightarrow> vote single" where
  "existing_vote e user body vs =
     (let voterUserId = map_option au_id user;
          guestToken = (if truthy voterUserId then None else b_guestToken body)
      in if truthy voterUserId \<and> \<not> isUnlimitedAdmin e user
         then maybeSingle (filter (\<lambda>v. v_topic_id v = b_topicId body \<and> v_user_id v = voterUserId) vs)
         else if truthy guestToken
         then maybeSingle (filter (\<lambda>v. v_topic_id v = b_topicId body \<and> v_guest_token v = guestToken) vs)
         else NoRow)"

text \<open>The profile of the voter: from the request, which stores the school and, for a
  signed-in user, the profile; or from the stored user row. The result is the response to
  send, or the six values the vote row takes, with the state after the writes.\<close>

record voter_profile =
  vp_birthYear :: int
  vp_gender :: jstring
  vp_schoolId :: uuid
  vp_aggregateSchoolId :: uuid
  vp_sidoCode :: "jstring option"
  vp_sigunguCode :: "jstring option"

definition profile_from_body ::
  "env \<Rightarrow> uuid option \<Rightarrow> profile_input \<Rightarrow> server \<Rightarrow> (post_response + voter_profile) \<times> server" where
  "profile_from_body e voterUserId p st =
     (case st of (d, cache) \<Rightarrow>
     (case ensureSchool (municipalities_file e) (gen_school_id e) (pr_school p) (db_schools d, cache) of
        (Inl err, schools', cache') \<Rightarrow> (Inl Status500, (d\<lparr>db_schools := schools'\<rparr>, cache'))
      | (Inr ensuredSchool, schools', cache') \<Rightarrow>
          (let vp = \<lparr>vp_birthYear = pr_birthYear p, vp_gender = pr_gender p,
                     vp_schoolId = schoolId ensuredSchool,
                     vp_aggregateSchoolId = aggregateSchoolId ensuredSchool,
                     vp_sidoCode = sc_sido_code (schoolRow ensuredSchool),
                     vp_sigunguCode = sc_sigungu_code (schoolRow ensuredSchool)\<rparr>;
               d' = d\<lparr>db_schools := schools'\<rparr>;
               d'' = (if truthy voterUserId
                      then d'\<lparr>db_users :=
                             map (\<lambda>u. if Some (u_id u) = voterUserId
                                       then u\<lparr>u_birth_year := Some (vp_birthYear vp),
                                              u_gender := Some (vp_gender vp),
                                              u_school_id := Some (vp_schoolId vp),
                                              u_sido_code := vp_sidoCode vp,
                                              u_sigungu_code := vp_sigunguCode vp\<rparr>
                                       else u) (db_users d')\<rparr>
                      else d')
           in (Inr vp, (d'', cache')))))"

definition profile_from_user :: "uuid option \<Rightarrow> database \<Rightarrow> post_response + voter_profile" where
  "profile_from_user voterUserId d =
     (if \<not> truthy voterUserId then Inl Status400
      else
        (case maybeSingle (filter (\<lambda>u. Some (u_id u) = voterUserId) (db_users d)) of
           ManyRows \<Rightarrow> Inl Status500
         | NoRow \<Rightarrow> Inl Status400
         | OneRow userRow \<Rightarrow>
             (case (u_birth_year userRow, u_gender userRow, u_school_id userRow) of
                (Some birth_year, Some gender, Some school_id) \<Rightarrow>
                  if birth_year = 0 \<or> gender = [] \<or> school_id = [] then Inl Status400
                  else
                    (case getSchoolIdentityById school_id (db_schools d) of
                       Inl err \<Rightarrow> Inl Status500
                     | Inr None \<Rightarrow> Inl Status400
                     | Inr (Some schoolIdentity) \<Rightarrow>
                         Inr \<lparr>vp_birthYear = birth_year, vp_gender = gender,
                              vp_schoolId = si_schoolId schoolIdentity,
                              vp_aggregateSchoolId = si_aggregateSchoolId schoolIdentity,
                              vp_sidoCode = coalesce (u_sido_code userRow) (si_sidoCode schoolIdentity),
                              vp_sigunguCode =
                                coalesce (u_sigungu_code userRow) (si_sigunguCode schoolIdentity)\<rparr>)
              | _ \<Rightarrow> Inl Status400)))"

text \<open>The row the handler sends to the database. For an administrator of the allow-list the
  user is replaced by a fresh guest token.\<close>

definition vote_row :: "env \<Rightarrow> auth_user option \<Rightarrow> vote_body \<Rightarrow> voter_profile \<Rightarrow> vote" where
  "vote_row e user body vp =
     (let voterUserId = map_option au_id user;
          guestToken = (if truthy voterUserId then None else b_guestToken body);
          insertUserId = (if isUnlimitedAdmin e user then None else voterUserId);
          insertGuestToken =
            (if isUnlimitedAdmin e user
             then Some (ascii ''admin-'' @ (case voterUserId of None \<Rightarrow> ascii ''null'' | Some i \<Rightarrow> i)
                          @ ascii ''-'' @ randomToken e)
             else guestToken)
      in \<lparr>v_id = gen_vote_id e, v_topic_id = b_topicId body, v_option_key = b_optionKey body,
          v_user_id = insertUserId, v_guest_token = insertGuestToken,
          v_school_id = vp_schoolId vp, v_aggregate_school_id = vp_aggregateSchoolId vp,
          v_birth_year = vp_birthYear vp, v_gender = vp_gender vp,
          v_sido_code = vp_sidoCode vp, v_sigungu_code = vp_sigunguCode vp,
          v_merged_from_guest = False, v_created_at = now e\<rparr>)"

definition submit_insert :: "vote \<Rightarrow> server \<Rightarrow> post_response \<times> server" where
  "submit_insert row st =
     (case insert_vote row (fst st) of
        Inl UniqueViolation \<Rightarrow> (Status409, st)
      | Inl err \<Rightarrow> (Status500, st)
      | Inr d' \<Rightarrow> (Status201 row, (d', snd st)))"

definition submit :: "env \<Rightarrow> request_json \<Rightarrow> auth_user option \<Rightarrow> server \<Rightarrow> post_response \<times> server" where
  "submit e rawBody user st =
     (case voteBodySchema e rawBody of
        None \<Rightarrow> (Status400, st)
      | Some body \<Rightarrow>
          (let voterUserId = map_option au_id user;
               guestToken = (if truthy voterUserId then None else b_guestToken body)
           in if \<not> truthy voterUserId \<and> \<not> truthy guestToken then (Status400, st)
              else
                (case maybeSingle
                        (filter (\<lambda>opt. o_topic_id opt = b_topicId body \<and>
                                        o_option_key opt = b_optionKey body)
                           (db_vote_options (fst st))) of
                   ManyRows \<Rightarrow> (Status500, st)
                 | NoRow \<Rightarrow> (Status400, st)
                 | OneRow option \<Rightarrow>
                     (case existing_vote e user body (db_votes (fst st)) of
                        ManyRows \<Rightarrow> (Status500, st)
                      | OneRow existingVote \<Rightarrow> (Status409, st)
                      | NoRow \<Rightarrow>
                          (case b_profile body of
                             Some p \<Rightarrow>
                               (case profile_from_body e voterUserId p st of
                                  (Inl response, st') \<Rightarrow> (response, st')
                                | (Inr vp, st') \<Rightarrow> submit_insert (vote_row e user body vp) st')
                           | None \<Rightarrow>
                               (case profile_from_user voterUserId (fst st) of
                                  Inl response \<Rightarrow> (response, st)
                                | Inr vp \<Rightarrow> submit_insert (vote_row e user body vp) st))))))"

text \<open>The handler: its \<^verbatim>\<open>try\<close> block is \<open>submit\<close>, and every exception, the one of
  \<^verbatim>\<open>request.json()\<close> included, becomes status 500 (the exceptions of \<open>ensureSchool\<close> and
  \<open>getSchoolIdentityById\<close> are turned into that status where they arise).\<close>

definition POST ::
  "env \<Rightarrow> request_json option \<Rightarrow> auth_user option \<Rightarrow> server \<Rightarrow> post_response \<times> server" where
  "POST e request user st =
     (case request of
        None \<Rightarrow> (Status500, st)
      | Some rawBody \<Rightarrow> submit e rawBody user st)"

section \<open>Parent reconciliation (scripts/import-universities.ts)\<close>

text \<open>
  The part of \<^verbatim>\<open>main\<close> after the upsert: it reads the schools of source \<^verbatim>\<open>local_xls\<close>,
  chooses a parent for every base name, and links the other records to it. The query has no
  \<^verbatim>\<open>order by\<close>; the rows are taken in the order of the table, and an update leaves a row at
  its place.
\<close>

definition normalizeBaseName :: "jstring \<Rightarrow> jstring" where
  "normalizeBaseName name = trim (filter (\<lambda>c. \<not> is_space c) (strip_parens name))"

text \<open>\<^verbatim>\<open>s.includes(t)\<close>, and the tag of a main campus.\<close>

fun js_includes :: "jstring \<Rightarrow> jstring \<Rightarrow> bool" where
  "js_includes [] t = (t = [])"
| "js_includes (c # cs) t = (prefix t (c # cs) \<or> js_includes cs t)"

definition bongyo :: jstring where
  "bongyo = [0xBCF8, 0xAD50]"

record fetched_school =
  fs_id :: uuid
  fs_school_name :: jstring
  fs_campus_type :: "jstring option"
  fs_school_code :: jstring

definition select_local_xls :: "school list \<Rightarrow> fetched_school list" where
  "select_local_xls schools =
     map (\<lambda>s. \<lparr>fs_id = sc_id s, fs_school_name = sc_school_name s,
                fs_campus_type = sc_campus_type s, fs_school_code = sc_school_code s\<rparr>)
       (filter (\<lambda>s. sc_source s = ascii ''local_xls'') schools)"

definition is_main_campus :: "fetched_school \<Rightarrow> bool" where
  "is_main_campus row = js_includes (case fs_campus_type row of None \<Rightarrow> [] | Some c \<Rightarrow> c) bongyo"

text \<open>The two passes that fill \<^verbatim>\<open>parentsByName\<close>: first the records tagged as main campus,
  then, for the names still without a parent, the first record of the name.\<close>

definition tagged_parent :: "fetched_school \<Rightarrow> (jstring \<rightharpoonup> uuid) \<Rightarrow> (jstring \<rightharpoonup> uuid)" where
  "tagged_parent row parentsByName =
     (let baseName = normalizeBaseName (fs_school_name row)
      in if parentsByName baseName = None \<and> is_main_campus row
         then parentsByName(baseName \<mapsto> fs_id row) else parentsByName)"

definition first_parent :: "fetched_school \<Rightarrow> (jstring \<rightharpoonup> uuid) \<Rightarrow> (jstring \<rightharpoonup> uuid)" where
  "first_parent row parentsByName =
     (let baseName = normalizeBaseName (fs_school_name row)
      in if parentsByName baseName = None
         then parentsByName(baseName \<mapsto> fs_id row) else parentsByName)"

definition parents_by_name :: "fetched_school list \<Rightarrow> (jstring \<rightharpoonup> uuid)" where
  "parents_by_name rows = fold first_parent rows (fold tagged_parent rows Map.empty)"

text \<open>The update of one record. The only constraint it can violate is the foreign key of
  \<^verbatim>\<open>parent_school_id\<close>.\<close>

definition update_parent :: "uuid \<Rightarrow> uuid \<Rightarrow> school list \<Rightarrow> db_error + school list" where
  "update_parent rid parentId schools =
     (if list_ex (\<lambda>s. sc_id s = rid) schools \<and> parentId \<notin> set (map sc_id schools)
      then Inl ForeignKeyViolation
      else Inr (map (\<lambda>s. if sc_id s = rid then s\<lparr>sc_parent_school_id := Some parentId\<rparr> else s)
                  schools))"

text \<open>The loop over the rows: the table so far and \<^verbatim>\<open>updatedParentLinks\<close>. An error of an
  update ends the script.\<close>

fun link_loop ::
  "(jstring \<rightharpoonup> uuid) \<Rightarrow> fetched_school list \<Rightarrow> school list \<times> nat \<Rightarrow> db_error + school list \<times> nat" where
  "link_loop parentsByName [] acc = Inr acc"
| "link_loop parentsByName (row # rows) (schools, updatedParentLinks) =
     (if is_main_campus row then link_loop parentsByName rows (schools, updatedParentLinks)
      else
        (case parentsByName (normalizeBaseName (fs_school_name row)) of
           None \<Rightarrow> link_loop parentsByName rows (schools, updatedParentLinks)
         | Some parentId \<Rightarrow>
             if parentId = [] \<or> parentId = fs_id row
             then link_loop parentsByName rows (schools, updatedParentLinks)
             else
               (case update_parent (fs_id row) parentId schools of
                  Inl e \<Rightarrow> Inl e
                | Inr schools' \<Rightarrow>
                    link_loop parentsByName rows (schools', updatedParentLinks + 1))))"

definition reconcile_parents :: "school list \<Rightarrow> db_error + school list \<times> nat" where
  "reconcile_parents schools =
     (let rows = select_local_xls schools
      in link_loop (parents_by_name rows) rows (schools, 0))"

section \<open>Notions used in the statements\<close>

subsection \<open>Aggregation\<close>

text \<open>The winner rule as a function of the two counts; the key and the entry the route
  handler derives from a row of the database function; the entry that a list of scanned
  rows amounts to; a vote's own code for a level, the votes of a topic, and the option
  row a vote refers to.\<close>

definition winner_of :: "nat \<Rightarrow> nat \<Rightarrow> RegionWinner" where
  "winner_of a b = (if a > b then A else if b > a then B else TIE)"

definition rpc_key :: "RegionStatsRpcRow \<Rightarrow> jstring" where
  "rpc_key row = trim (case region row of None \<Rightarrow> [] | Some r \<Rightarrow> r)"

definition rpc_stat :: "RegionStatsRpcRow \<Rightarrow> RegionVoteStat" where
  "rpc_stat row =
     \<lparr>winner = (if r_winner row = ascii ''A'' then A else if r_winner row = ascii ''B'' then B else TIE),
      total = r_total row, countA = count_a row, countB = count_b row\<rparr>"

definition consistent :: "RegionVoteMap \<Rightarrow> bool" where
  "consistent m = (\<forall>k s. m k = Some s \<longrightarrow> winner s = winner_of (countA s) (countB s))"

definition tally :: "jstring \<Rightarrow> jstring \<Rightarrow> VoteRow list \<Rightarrow> RegionVoteStat" where
  "tally a b rs =
     (let cA = length (filter (\<lambda>r. option_key r = a) rs);
          cB = length (filter (\<lambda>r. option_key r = b) rs)
      in \<lparr>winner = winner_of cA cB, total = length rs, countA = cA, countB = cB\<rparr>)"

definition own_code :: "RegionLevel \<Rightarrow> vote \<Rightarrow> jstring option" where
  "own_code level v = (case level of Sigungu \<Rightarrow> v_sigungu_code v | Sido \<Rightarrow> v_sido_code v)"

definition topic_votes :: "database \<Rightarrow> jstring \<Rightarrow> vote list" where
  "topic_votes d t = filter (\<lambda>v. v_topic_id v = t) (db_votes d)"

definition option_of :: "database \<Rightarrow> vote \<Rightarrow> vote_option option" where
  "option_of d v =
     find (\<lambda>opt. o_topic_id opt = v_topic_id v \<and> o_option_key opt = v_option_key v) (db_vote_options d)"

text \<open>The code of the school a vote is linked to; the code under which the slow path
  counts a vote and the code under which the fast path does, \<open>None\<close> when the vote is
  left out; the distinct non-empty own codes of a topic's votes.\<close>

definition school_code :: "database \<Rightarrow> RegionLevel \<Rightarrow> vote \<Rightarrow> jstring option" where
  "school_code d level v =
     (case find (\<lambda>s. sc_id s = v_school_id v) (db_schools d) of
        None \<Rightarrow> None
      | Some s \<Rightarrow> (case level of Sigungu \<Rightarrow> sc_sigungu_code s | Sido \<Rightarrow> sc_sido_code s))"

definition slow_code :: "database \<Rightarrow> RegionLevel \<Rightarrow> vote \<Rightarrow> jstring option" where
  "slow_code d level v = row_regionCode level (select_vote_row d v)"

definition fast_code :: "RegionLevel \<Rightarrow> vote \<Rightarrow> jstring option" where
  "fast_code level v =
     (case nullif (own_code level v) [] of
        None \<Rightarrow> None
      | Some r \<Rightarrow> if trim r = [] then None else Some (trim r))"

definition topic_codes :: "database \<Rightarrow> jstring \<Rightarrow> RegionLevel \<Rightarrow> jstring list" where
  "topic_codes d t level =
     remdups (List.map_filter (\<lambda>v. nullif (own_code level v) []) (topic_votes d t))"

text \<open>The row that \<open>get_region_vote_stats\<close> returns for a region, written over the votes
  of the topic.\<close>

definition sql_row :: "database \<Rightarrow> jstring \<Rightarrow> RegionLevel \<Rightarrow> jstring \<Rightarrow> RegionStatsRpcRow" where
  "sql_row d t level r =
     (let grp = filter (\<lambda>v. nullif (own_code level v) [] = Some r) (topic_votes d t);
          ca = length (filter (\<lambda>v. o_position (the (option_of d v)) = 1) grp);
          cb = length (filter (\<lambda>v. o_position (the (option_of d v)) = 2) grp)
      in \<lparr>region = Some r, r_total = length grp, count_a = ca, count_b = cb,
          r_winner = (if ca > cb then ascii ''A'' else if cb > ca then ascii ''B'' else ascii ''TIE'')\<rparr>)"

text \<open>The number of votes a map counts under a code.\<close>

definition total_at :: "RegionVoteMap \<Rightarrow> jstring \<Rightarrow> nat" where
  "total_at m k = (case m k of None \<Rightarrow> 0 | Some s \<Rightarrow> total s)"

text \<open>The rule of the amended claim C7, to be compared with the two paths. A stored code is
  usable when, trimmed, it is neither empty nor the key \<^verbatim>\<open>__proto__\<close>; the region a vote
  is counted under is then the trimmed code. The scan reads the code of the linked school
  only when the vote's own code is null; the database function never reads it. \<open>None\<close>
  means that the vote is left out.\<close>

definition usable :: "jstring \<Rightarrow> jstring option" where
  "usable c = (if trim c = [] \<or> trim c = ascii ''__proto__'' then None else Some (trim c))"

definition counted_slow :: "database \<Rightarrow> RegionLevel \<Rightarrow> vote \<Rightarrow> jstring option" where
  "counted_slow d level v =
     (case own_code level v of
        Some c \<Rightarrow> usable c
      | None \<Rightarrow> (case school_code d level v of Some c \<Rightarrow> usable c | None \<Rightarrow> None))"

definition counted_fast :: "RegionLevel \<Rightarrow> vote \<Rightarrow> jstring option" where
  "counted_fast level v = (case own_code level v of Some c \<Rightarrow> usable c | None \<Rightarrow> None)"

subsection \<open>Guest merge\<close>





subsection \<open>Vote submission\<close>


subsection \<open>Parent reconciliation\<close>

text \<open>The records the loop writes to: those that are not tagged as main campus and whose
  base name has a parent other than the record itself.\<close>

definition needs_link :: "(jstring \<rightharpoonup> uuid) \<Rightarrow> fetched_school \<Rightarrow> bool" where
  "needs_link parentsByName row =
     (\<not> is_main_campus row \<and>
      (case parentsByName (normalizeBaseName (fs_school_name row)) of
         None \<Rightarrow> False
       | Some parentId \<Rightarrow> parentId \<noteq> [] \<and> parentId \<noteq> fs_id row))"

section \<open>Concrete inputs\<close>

subsection \<open>A gazetteer and two addresses\<close>

text \<open>The ten districts of Incheon (codes 23010 to 23320) and Busan's Nam-gu (21070).
  The name of district 23030 is a parameter: Nam-gu until 2018, Michuhol-gu since.
  An address is \<open>Incheon <district> Inha-ro 100\<close>.\<close>

definition inha_ro :: jstring where "inha_ro = [0xC778, 0xD558, 0xB85C]"

definition gazetteer_with :: "jstring \<Rightarrow> feature list" where
  "gazetteer_with n =
     map (\<lambda>(c, k). \<lparr>f_code = Some (ascii c), f_name = Some k\<rparr>)
       [(''21070'', nam_gu),
        (''23010'', [0xC911, 0xAD6C]), (''23020'', [0xB3D9, 0xAD6C]), (''23030'', n),
        (''23040'', [0xC5F0, 0xC218, 0xAD6C]), (''23050'', [0xB0A8, 0xB3D9, 0xAD6C]),
        (''23060'', [0xBD80, 0xD3C9, 0xAD6C]), (''23070'', [0xACC4, 0xC591, 0xAD6C]),
        (''23080'', [0xC11C, 0xAD6C]), (''23310'', [0xAC15, 0xD654, 0xAD70]),
        (''23320'', [0xC639, 0xC9C4, 0xAD70])]"

definition address_of :: "jstring \<Rightarrow> jstring" where
  "address_of district = incheon @ 32 # district @ 32 # inha_ro @ ascii '' 100''"

subsection \<open>A topic, a school and two small vote tables\<close>

text \<open>The topic and the two options are those the migration inserts. The school has
  province code 11. Both tables hold a vote for each option; in \<open>gap_db\<close> the second vote
  has no province code of its own, in \<open>full_db\<close> both votes carry code 11. The table
  \<open>blank_db\<close> holds one vote, whose own province code is the empty string.\<close>

definition popular_vote :: jstring where
  "popular_vote = ascii ''popular-vote''"

definition example_options :: "vote_option list" where
  "example_options =
    [\<lparr>o_topic_id = popular_vote, o_option_key = ascii ''seoul'', o_option_label = seoul,
      o_position = 1\<rparr>,
     \<lparr>o_topic_id = popular_vote, o_option_key = ascii ''busan'', o_option_label = busan,
      o_position = 2\<rparr>]"

definition example_school :: school where
  "example_school =
     \<lparr>sc_id = ascii ''s1'', sc_source = ascii ''local_xls'', sc_school_code = ascii ''0000001'',
      sc_school_name = ascii ''U'', sc_school_level = ascii ''university'',
      sc_campus_type = None, sc_parent_school_id = None, sc_sido_name = Some seoul,
      sc_sido_code = Some (ascii ''11''), sc_sigungu_name = None,
      sc_sigungu_code = Some (ascii ''11010''), sc_address = None, sc_is_active = True\<rparr>"

definition example_vote :: "string \<Rightarrow> string \<Rightarrow> jstring option \<Rightarrow> nat \<Rightarrow> vote" where
  "example_vote ident key sido created =
     \<lparr>v_id = ascii ident, v_topic_id = popular_vote, v_option_key = ascii key,
      v_user_id = None, v_guest_token = Some (ascii ident),
      v_school_id = ascii ''s1'', v_aggregate_school_id = ascii ''s1'',
      v_birth_year = 2000, v_gender = ascii ''other'',
      v_sido_code = sido, v_sigungu_code = None,
      v_merged_from_guest = False, v_created_at = created\<rparr>"

definition gap_db :: database where
  "gap_db =
     \<lparr>db_schools = [example_school], db_vote_options = example_options,
      db_votes = [example_vote ''v1'' ''seoul'' (Some (ascii ''11'')) 10,
                  example_vote ''v2'' ''busan'' None 20],
      db_users = []\<rparr>"

definition full_db :: database where
  "full_db =
     \<lparr>db_schools = [example_school], db_vote_options = example_options,
      db_votes = [example_vote ''v1'' ''seoul'' (Some (ascii ''11'')) 10,
                  example_vote ''v2'' ''busan'' (Some (ascii ''11'')) 20],
      db_users = []\<rparr>"

definition blank_db :: database where
  "blank_db =
     \<lparr>db_schools = [example_school], db_vote_options = example_options,
      db_votes = [example_vote ''v3'' ''seoul'' (Some []) 10],
      db_users = []\<rparr>"

subsection \<open>A table for the guest merge\<close>

text \<open>The guest \<open>g\<close> has voted on the topics \<open>t1\<close> and \<open>t2\<close>, the user \<open>u\<close> on \<open>t1\<close>,
  and another guest \<open>h\<close> on \<open>t1\<close>.\<close>

definition merge_vote :: "string \<Rightarrow> string \<Rightarrow> string option \<Rightarrow> string option \<Rightarrow> vote" where
  "merge_vote ident topic user guest =
     \<lparr>v_id = ascii ident, v_topic_id = ascii topic, v_option_key = ascii ''seoul'',
      v_user_id = map_option ascii user, v_guest_token = map_option ascii guest,
      v_school_id = ascii ''s1'', v_aggregate_school_id = ascii ''s1'',
      v_birth_year = 2000, v_gender = ascii ''other'',
      v_sido_code = None, v_sigungu_code = None,
      v_merged_from_guest = False, v_created_at = 10\<rparr>"

definition merge_table :: "vote list" where
  "merge_table =
     [merge_vote ''a'' ''t1'' None (Some ''g''),
      merge_vote ''b'' ''t1'' (Some ''u'') None,
      merge_vote ''c'' ''t2'' None (Some ''g''),
      merge_vote ''d'' ''t1'' None (Some ''h'')]"

definition merged_table :: "vote list" where
  "merged_table =
     [merge_vote ''b'' ''t1'' (Some ''u'') None,
      (merge_vote ''c'' ''t2'' (Some ''u'') None)\<lparr>v_merged_from_guest := True\<rparr>,
      merge_vote ''d'' ''t1'' None (Some ''h'')]"

subsection \<open>A first vote of a guest\<close>

text \<open>The request of a guest who votes for the first time and sends a school the table does
  not hold yet. The school of the request carries the province code 11 and the
  municipality code 23030.\<close>

definition example_env :: env where
  "example_env =
     \<lparr>municipalities_file = gazetteer_with michuhol_gu,
      is_uuid = (\<lambda>s. length s = 36),
      toLowerCase = map (\<lambda>c. if 65 \<le> c \<and> c \<le> 90 then c + 32 else c),
      randomToken = ascii ''r'',
      gen_school_id = ascii ''s2'',
      gen_vote_id = ascii ''v9'',
      now = 30\<rparr>"

definition example_item :: SchoolSearchItem where
  "example_item =
     \<lparr>it_id = None, it_source = ascii ''local_xls'', it_schoolCode = ascii ''0000002'',
      it_schoolName = ascii ''V'', it_schoolLevel = ascii ''university'',
      it_campusType = None, it_parentSchoolId = None, it_sidoName = None,
      it_sidoCode = Some (ascii ''11''), it_sigunguName = None,
      it_sigunguCode = Some (ascii ''23030''), it_address = None, it_isActive = True\<rparr>"

definition example_school_row :: school where
  "example_school_row =
     \<lparr>sc_id = ascii ''s2'', sc_source = ascii ''local_xls'', sc_school_code = ascii ''0000002'',
      sc_school_name = ascii ''V'', sc_school_level = ascii ''university'',
      sc_campus_type = None, sc_parent_school_id = None, sc_sido_name = None,
      sc_sido_code = Some (ascii ''11''), sc_sigungu_name = None,
      sc_sigungu_code = Some (ascii ''23030''), sc_address = None, sc_is_active = True\<rparr>"

definition example_token :: jstring where
  "example_token = ascii ''123e4567-e89b-12d3-a456-426614174000''"

definition example_body :: vote_body where
  "example_body =
     \<lparr>b_topicId = popular_vote, b_optionKey = ascii ''seoul'',
      b_guestToken = Some example_token,
      b_profile = Some \<lparr>pr_birthYear = 2000, pr_gender = ascii ''other'',
                        pr_school = example_item\<rparr>\<rparr>"

definition example_stored_vote :: vote where
  "example_stored_vote =
     \<lparr>v_id = ascii ''v9'', v_topic_id = popular_vote, v_option_key = ascii ''seoul'',
      v_user_id = None, v_guest_token = Some example_token,
      v_school_id = ascii ''s2'', v_aggregate_school_id = ascii ''s2'',
      v_birth_year = 2000, v_gender = ascii ''other'',
      v_sido_code = Some (ascii ''11''), v_sigungu_code = Some (ascii ''23030''),
      v_merged_from_guest = False, v_created_at = 30\<rparr>"

definition start_db :: database where
  "start_db = \<lparr>db_schools = [], db_vote_options = example_options, db_votes = [], db_users = []\<rparr>"

definition voted_db :: database where
  "voted_db =
     \<lparr>db_schools = [example_school_row], db_vote_options = example_options,
      db_votes = [example_stored_vote], db_users = []\<rparr>"



subsection \<open>A university with a branch campus\<close>

text \<open>Two records of source \<^verbatim>\<open>local_xls\<close> with the same base name: the main campus and a
  branch campus, which is already linked to the main campus.\<close>

definition bungyo :: jstring where
  "bungyo = [0xBD84, 0xAD50]"

definition campus :: "string \<Rightarrow> string \<Rightarrow> jstring \<Rightarrow> jstring \<Rightarrow> uuid option \<Rightarrow> school" where
  "campus ident code name type parent =
     \<lparr>sc_id = ascii ident, sc_source = ascii ''local_xls'', sc_school_code = ascii code,
      sc_school_name = name, sc_school_level = ascii ''university'',
      sc_campus_type = Some type, sc_parent_school_id = parent, sc_sido_name = None,
      sc_sido_code = None, sc_sigungu_name = None, sc_sigungu_code = None,
      sc_address = None, sc_is_active = True\<rparr>"

definition linked_schools :: "school list" where
  "linked_schools =
     [campus ''m1'' ''0000010'' (ascii ''K'') bongyo None,
      campus ''b1'' ''0000011'' (ascii ''K (Second)'') bungyo (Some (ascii ''m1''))]"

section \<open>Properties of the region resolver\<close>

lemmas str_defs =
  ascii_def incheon_def nam_gu_def michuhol_gu_def inha_ro_def gu_def gun_def si_def

subsection \<open>Evaluation on the concrete names\<close>

lemma sido_incheon: "resolveSidoCode (Some incheon) = Own (ascii ''23'')"
  by (simp add: resolveSidoCode_def normalizeKorean_def trim_def is_space_def js_get_def
      SIDO_CODE_MAP_def seoul_def busan_def daegu_def incheon_def ascii_def)

lemma norm_nam_gu: "normalizeKorean nam_gu = nam_gu"
  by (simp add: normalizeKorean_def str_defs trim_def is_space_def)


lemma nam_gu_ne: "nam_gu \<noteq> []"
  by (simp add: nam_gu_def)

lemma no_space_incheon: "\<forall>c \<in> set incheon. \<not> is_space c" "incheon \<noteq> []"
  by (simp_all add: incheon_def is_space_def)


text \<open>The alias table has no entry keyed Nam-gu; under the key Michuhol-gu it lists
  Nam-gu.\<close>

lemma expand_nam_gu: "expandSigunguAliases nam_gu = Inr [nam_gu]"
  by (simp add: expandSigunguAliases_def normalizeKorean_def trim_def is_space_def js_get_def
      SIGUNGU_ALIAS_MAP_def object_prototype_keys_def str_defs)


subsection \<open>Tokens of an address\<close>

lemma split_ws_token:
  assumes "\<forall>c \<in> set tok. \<not> is_space c"
  shows "split_ws (tok @ 32 # rest) = tok # split_ws (dropWhile is_space rest)"
proof -
  have sp: "is_space 32" by (simp add: is_space_def)
  have a: "takeWhile (\<lambda>c. \<not> is_space c) (tok @ 32 # rest) = tok"
    using assms sp by (simp add: takeWhile_append2)
  have b: "dropWhile (\<lambda>c. \<not> is_space c) (tok @ 32 # rest) = 32 # rest"
    using assms sp by (simp add: dropWhile_append2)
  show ?thesis
    by (subst split_ws.simps) (simp add: a b Let_def sp)
qed

lemma trim_token:
  assumes "\<forall>c \<in> set t. \<not> is_space c" and "t \<noteq> []"
  shows "trim t = t"
proof -
  have lead: "dropWhile is_space t = t" using assms by (cases t) auto
  have "\<not> is_space (last t)" using assms by simp
  then have trail: "dropWhile is_space (rev t) = rev t"
    using assms by (cases "rev t") (auto simp: last_rev)
  show ?thesis by (simp add: trim_def lead trail)
qed

text \<open>When the address starts with two tokens separated by single spaces, the second
  token is the first candidate.\<close>

lemma candidates_second:
  assumes t1: "\<forall>c \<in> set t1. \<not> is_space c" "t1 \<noteq> []"
      and t2: "\<forall>c \<in> set t2. \<not> is_space c" "t2 \<noteq> []"
  shows "\<exists>cs. extractSigunguCandidates (Some (t1 @ 32 # t2 @ 32 # rest)) = t2 # cs"
proof -
  have s: "split_ws (t1 @ 32 # t2 @ 32 # rest) = t1 # t2 # split_ws (dropWhile is_space rest)"
  proof -
    have d: "dropWhile is_space (t2 @ 32 # rest) = t2 @ 32 # rest"
      using t2 by (cases t2) auto
    show ?thesis
      using split_ws_token [OF t1(1), of "t2 @ 32 # rest"] split_ws_token [OF t2(1), of rest]
      by (simp add: d)
  qed
  obtain toks where toks:
    "filter (\<lambda>t. t \<noteq> []) (map trim (split_ws (t1 @ 32 # t2 @ 32 # rest))) = t1 # t2 # toks"
    by (simp add: s trim_token t1 t2)
  show ?thesis
    using t1 t2
    by (auto simp: extractSigunguCandidates_def toks Let_def set_add_def)
qed

subsection \<open>Where a match comes from\<close>





subsection \<open>The Nam-gu scenario\<close>

lemma nam_gu_address_candidates:
  "sigungu_candidates \<lparr>arg_sidoCode = Some (ascii ''23''), arg_sigunguName = None,
     arg_address = Some (address_of nam_gu)\<rparr> = [nam_gu]"
proof -
  have "extractSigunguCandidates (Some (address_of nam_gu)) = [nam_gu]"
    by (simp add: extractSigunguCandidates_def address_of_def split_ws.simps str_defs trim_def
        is_space_def Let_def set_add_def suffix_to_prefix)
  then show ?thesis
    by (simp add: sigungu_candidates_def norm_nam_gu nam_gu_ne)
qed

lemma nam_gu_unmatched:
  "match_candidates
     (sigungu_pool (fst (readMunicipalities (gazetteer_with michuhol_gu) None)) (Some (ascii ''23'')))
     [nam_gu] = Inr None"
proof -
  have "match_expanded
     (sigungu_pool (fst (readMunicipalities (gazetteer_with michuhol_gu) None)) (Some (ascii ''23'')))
     [nam_gu] = None"
    by (simp add: sigungu_pool_def readMunicipalities_def gazetteer_with_def parse_feature_def
        normalizeKorean_def trim_def is_space_def Let_def str_defs suffix_to_prefix)
  then show ?thesis
    by (simp add: expand_nam_gu del: match_expanded.simps)
qed

lemma michuhol_listed:
  "\<exists>f \<in> set (gazetteer_with michuhol_gu).
     f_code f = Some (ascii ''23030'') \<and> f_name f = Some michuhol_gu"
  by (simp add: gazetteer_with_def)

text \<open>
  Claim C6, as stated, fails. The gazetteer lists municipality 23030 under the name
  Michuhol-gu; the province code is the one \<open>resolveSidoCode\<close> gives for Incheon; no
  municipality name is supplied; the address is \<open>Incheon Nam-gu Inha-ro 100\<close>. The only
  candidate is Nam-gu, the alias table has no entry under that key, no Incheon entry of
  the gazetteer is named Nam-gu or matches it by suffix, and the resolver returns a
  null code with the display name Nam-gu.
\<close>

theorem C6_nam_gu_address_unresolved:
  "(\<exists>f \<in> set (gazetteer_with michuhol_gu).
      f_code f = Some (ascii ''23030'') \<and> f_name f = Some michuhol_gu) \<and>
   resolveSidoCode (Some incheon) = Own (ascii ''23'') \<and>
   fst (resolveSigunguCode (gazetteer_with michuhol_gu) None
          \<lparr>arg_sidoCode = Some (ascii ''23''), arg_sigunguName = None,
           arg_address = Some (address_of nam_gu)\<rparr>)
     = Inr \<lparr>sigunguCode = None, sigunguName = Some nam_gu\<rparr>"
proof -
  have "fst (resolveSigunguCode (gazetteer_with michuhol_gu) None
          \<lparr>arg_sidoCode = Some (ascii ''23''), arg_sigunguName = None,
           arg_address = Some (address_of nam_gu)\<rparr>)
     = Inr \<lparr>sigunguCode = None, sigunguName = Some nam_gu\<rparr>"
    by (simp add: resolveSigunguCode_def resolve_in_def split_def Let_def
        nam_gu_address_candidates nam_gu_unmatched nam_gu_ne del: match_candidates.simps)
  with michuhol_listed sido_incheon show ?thesis by blast
qed

text \<open>
  The alias table does hold the old name: its key \<open>Incheon-Nam-gu\<close> lists Michuhol-gu. That
  key is reached when the old name is passed as the municipality name with the province in
  front of it, since \<open>normalizeKorean\<close> removes the space between them; the tokens of an
  address are never joined, so the address path above does not reach it.
\<close>

lemma nam_gu_explicit_name_resolves:
  "fst (resolveSigunguCode (gazetteer_with michuhol_gu) None
     \<lparr>arg_sidoCode = Some (ascii ''23''), arg_sigunguName = Some (incheon @ 32 # nam_gu),
      arg_address = None\<rparr>)
   = Inr \<lparr>sigunguCode = Some (ascii ''23030''), sigunguName = Some michuhol_gu\<rparr>"
proof -
  let ?pool = "sigungu_pool (fst (readMunicipalities (gazetteer_with michuhol_gu) None))
                 (Some (ascii ''23''))"
  have norm: "normalizeKorean (incheon @ 32 # nam_gu) = incheon @ nam_gu"
    by (simp add: normalizeKorean_def trim_def is_space_def str_defs)
  have cand: "sigungu_candidates \<lparr>arg_sidoCode = Some (ascii ''23''),
      arg_sigunguName = Some (incheon @ 32 # nam_gu), arg_address = None\<rparr> = [incheon @ nam_gu]"
    by (simp add: sigungu_candidates_def extractSigunguCandidates_def norm) (simp add: str_defs)
  have ex: "expandSigunguAliases (incheon @ nam_gu) = Inr [incheon @ nam_gu, nam_gu, michuhol_gu]"
    by (simp add: expandSigunguAliases_def normalizeKorean_def trim_def is_space_def js_get_def
        SIGUNGU_ALIAS_MAP_def object_prototype_keys_def str_defs)
  have "match_expanded ?pool [incheon @ nam_gu, nam_gu, michuhol_gu]
          = Some \<lparr>m_code = ascii ''23030'', m_name = michuhol_gu, m_norm = michuhol_gu\<rparr>"
    by (simp add: sigungu_pool_def readMunicipalities_def gazetteer_with_def parse_feature_def
        normalizeKorean_def trim_def is_space_def Let_def str_defs suffix_to_prefix)
  then have "match_candidates ?pool [incheon @ nam_gu]
          = Inr (Some \<lparr>m_code = ascii ''23030'', m_name = michuhol_gu, m_norm = michuhol_gu\<rparr>)"
    by (simp add: ex del: match_expanded.simps)
  then show ?thesis
    by (simp add: resolveSigunguCode_def resolve_in_def split_def Let_def cand
        del: match_candidates.simps)
qed


section \<open>Properties of the aggregation\<close>

lemma winner_of_rule:
  "(winner_of a b = A \<longleftrightarrow> b < a) \<and> (winner_of a b = B \<longleftrightarrow> a < b) \<and> (winner_of a b = TIE \<longleftrightarrow> a = b)"
  by (auto simp: winner_of_def)

lemma rpc_row_step_alt:
  "rpc_row_step row m =
     (if rpc_key row = [] \<or> rpc_key row = ascii ''__proto__'' then m
      else m(rpc_key row \<mapsto> rpc_stat row))"
  by (simp add: rpc_row_step_def assign_entry_def rpc_key_def rpc_stat_def Let_def normalizeInt_def)

lemma fold_rpc_entry:
  "fold rpc_row_step rows m k = Some s \<Longrightarrow>
     m k = Some s \<or>
     (\<exists>row \<in> set rows. rpc_key row = k \<and> k \<noteq> [] \<and> k \<noteq> ascii ''__proto__'' \<and> rpc_stat row = s)"
proof (induction rows arbitrary: s rule: rev_induct)
  case Nil
  then show ?case by simp
next
  case (snoc row rows)
  define M where "M = fold rpc_row_step rows m"
  from snoc.prems have step: "rpc_row_step row M k = Some s" by (simp add: M_def)
  show ?case
  proof (cases "rpc_key row = k \<and> k \<noteq> [] \<and> k \<noteq> ascii ''__proto__''")
    case True
    with step have "s = rpc_stat row" unfolding rpc_row_step_alt by auto
    with True show ?thesis by auto
  next
    case False
    with step have "M k = Some s" unfolding rpc_row_step_alt by (auto split: if_splits)
    from snoc.IH [OF this [unfolded M_def]] show ?thesis by auto
  qed
qed

lemma winner_text_distinct: "ascii ''A'' \<noteq> ascii ''B''" "ascii ''A'' \<noteq> ascii ''TIE''" "ascii ''B'' \<noteq> ascii ''TIE''"
  by (simp_all add: ascii_def)

lemma sql_row_winner:
  assumes "row \<in> set (get_region_vote_stats d t l)"
  shows "winner (rpc_stat row) = winner_of (countA (rpc_stat row)) (countB (rpc_stat row))"
proof -
  from assms obtain r t ca cb where row:
    "row = \<lparr>region = Some r, r_total = t, count_a = ca, count_b = cb,
            r_winner = (if ca > cb then ascii ''A'' else if cb > ca then ascii ''B'' else ascii ''TIE'')\<rparr>"
    by (auto simp: get_region_vote_stats_def)
  show ?thesis
    unfolding row
    by (simp add: rpc_stat_def winner_of_def winner_text_distinct winner_text_distinct [symmetric])
qed

lemma stats_step_consistent:
  assumes "consistent (fst acc)"
  shows "consistent (fst (stats_step level a b row acc))"
proof (cases acc)
  case (fields m ta tb)
  with assms show ?thesis
    by (auto simp: stats_step_def assign_entry_def consistent_def winner_of_def Let_def
        split: option.splits)
qed

lemma fold_stats_consistent:
  "consistent (fst acc) \<Longrightarrow> consistent (fst (fold (stats_step level a b) rows acc))"
  by (induction rows arbitrary: acc) (simp_all add: stats_step_consistent)

lemma build_consistent: "consistent (fst (buildStatsFromVoteRows rows level a b))"
proof -
  have "consistent (fst (fold (stats_step level a b) rows (Map.empty, 0, 0)))"
    by (rule fold_stats_consistent) (simp add: consistent_def)
  then show ?thesis
    by (simp add: buildStatsFromVoteRows_def split_beta)
qed

lemma fetch_pages_all: "fetch_pages result offset collected = collected @ drop offset result"
proof (induction result offset collected rule: fetch_pages.induct)
  case (1 result offset collected)
  let ?rows = "take pageSize (drop offset result)"
  show ?case
  proof (cases "length ?rows < pageSize")
    case True
    then have "?rows = drop offset result" by (auto simp: min_def split: if_splits)
    with True show ?thesis by (subst fetch_pages.simps) (simp add: Let_def)
  next
    case False
    then have "fetch_pages result offset collected
                 = fetch_pages result (offset + pageSize) (collected @ ?rows)"
      by (subst fetch_pages.simps) (simp add: Let_def)
    also have "\<dots> = (collected @ ?rows) @ drop (offset + pageSize) result"
      using False by (intro "1.IH") auto
    also have "\<dots> = collected @ (?rows @ drop pageSize (drop offset result))"
      by (simp add: add.commute)
    also have "\<dots> = collected @ drop offset result"
      by (simp only: append_take_drop_id)
    finally show ?thesis .
  qed
qed

lemma fetchAll_votes_by_topic: "fetchAllVotesByTopic d topicId = votes_by_topic d topicId"
  by (simp add: fetchAllVotesByTopic_def fetch_pages_all)

lemma tally_snoc:
  "tally a b (rs @ [r]) =
     \<lparr>winner = winner_of (countA (tally a b rs) + (if option_key r = a then 1 else 0))
                         (countB (tally a b rs) + (if option_key r = b then 1 else 0)),
      total = total (tally a b rs) + 1,
      countA = countA (tally a b rs) + (if option_key r = a then 1 else 0),
      countB = countB (tally a b rs) + (if option_key r = b then 1 else 0)\<rparr>"
  by (simp add: tally_def Let_def)

lemma tally_nil: "tally a b [] = \<lparr>winner = TIE, total = 0, countA = 0, countB = 0\<rparr>"
  by (simp add: tally_def winner_of_def)

lemma stats_step_skip:
  "row_regionCode level r = None \<Longrightarrow> stats_step level a b r acc = acc"
  by (cases acc) (simp add: stats_step_def)

lemma stats_step_proto:
  "row_regionCode level r = Some (ascii ''__proto__'') \<Longrightarrow>
     fst (stats_step level a b r (m, ta, tb)) = m"
  by (simp add: stats_step_def assign_entry_def Let_def)

lemma stats_step_count:
  assumes "row_regionCode level r = Some c" and "c \<noteq> ascii ''__proto__''"
  shows "fst (stats_step level a b r (m, ta, tb)) =
     m(c \<mapsto>
       (let current = (case m c of Some x \<Rightarrow> x | None \<Rightarrow> tally a b [])
        in \<lparr>winner = winner_of (countA current + (if option_key r = a then 1 else 0))
                                (countB current + (if option_key r = b then 1 else 0)),
            total = total current + 1,
            countA = countA current + (if option_key r = a then 1 else 0),
            countB = countB current + (if option_key r = b then 1 else 0)\<rparr>))"
proof (cases "m c")
  case None
  with assms show ?thesis
    by (simp add: stats_step_def assign_entry_def Let_def tally_nil winner_of_def)
next
  case (Some x)
  with assms show ?thesis
    by (simp add: stats_step_def assign_entry_def Let_def winner_of_def)
qed

lemma fold_stats_map:
  "fst (fold (stats_step level a b) rows (Map.empty, 0, 0)) k =
     (let rs = filter (\<lambda>r. row_regionCode level r = Some k) rows
      in if rs = [] \<or> k = ascii ''__proto__'' then None else Some (tally a b rs))"
proof (induction rows arbitrary: k rule: rev_induct)
  case Nil
  then show ?case by simp
next
  case (snoc r rows)
  obtain m ta tb where acc: "fold (stats_step level a b) rows (Map.empty, 0, 0) = (m, ta, tb)"
    by (cases "fold (stats_step level a b) rows (Map.empty, 0, 0)") auto
  have m: "m k' = (let rs = filter (\<lambda>r. row_regionCode level r = Some k') rows
                   in if rs = [] \<or> k' = ascii ''__proto__'' then None else Some (tally a b rs))" for k'
    using snoc.IH [of k'] acc by simp
  have step: "fold (stats_step level a b) (rows @ [r]) (Map.empty, 0, 0)
                = stats_step level a b r (m, ta, tb)"
    by (simp add: acc)
  show ?case
  proof (cases "row_regionCode level r")
    case None
    then show ?thesis
      unfolding step by (simp add: stats_step_skip m)
  next
    case (Some c)
    show ?thesis
    proof (cases "c = ascii ''__proto__''")
      case proto: True
      with Some have "fst (stats_step level a b r (m, ta, tb)) = m"
        by (simp add: stats_step_proto)
      with Some proto show ?thesis
        unfolding step by (simp add: m Let_def)
    next
      case plain: False
      note cnt = stats_step_count [OF Some plain]
      show ?thesis
      proof (cases "c = k")
        case False
        with Some show ?thesis
          unfolding step cnt by (simp add: m)
      next
        case True
        show ?thesis
        proof (cases "filter (\<lambda>r. row_regionCode level r = Some k) rows = []")
          case empty: True
          with Some True plain show ?thesis
            unfolding step cnt
            using m [of k] tally_snoc [of a b "[]" r]
            by (simp add: Let_def)
        next
          case nonempty: False
          with Some True plain show ?thesis
            unfolding step cnt
            using m [of k] tally_snoc [of a b "filter (\<lambda>r. row_regionCode level r = Some k) rows" r]
            by (simp add: Let_def)
        qed
      qed
    qed
  qed
qed

lemma build_map:
  "fst (buildStatsFromVoteRows rows level a b) k =
     (let rs = filter (\<lambda>r. row_regionCode level r = Some k) rows
      in if rs = [] \<or> k = ascii ''__proto__'' then None else Some (tally a b rs))"
  using fold_stats_map [of level a b rows k]
  by (simp add: buildStatsFromVoteRows_def split_beta)

lemma fold_rpc_defined:
  "row \<in> set rows \<Longrightarrow> rpc_key row \<noteq> [] \<Longrightarrow> rpc_key row \<noteq> ascii ''__proto__'' \<Longrightarrow>
     \<exists>s. fold rpc_row_step rows m (rpc_key row) = Some s"
proof (induction rows rule: rev_induct)
  case Nil
  then show ?case by simp
next
  case (snoc x rows)
  define M where "M = fold rpc_row_step rows m"
  show ?case
  proof (cases "rpc_key x = rpc_key row")
    case True
    with snoc.prems show ?thesis by (simp add: rpc_row_step_alt)
  next
    case False
    with snoc.prems have "row \<in> set rows" by auto
    from snoc.IH [OF this snoc.prems(2,3)] False show ?thesis
      by (auto simp: rpc_row_step_alt)
  qed
qed

lemma fast_path_some:
  assumes func: "\<forall>r1 \<in> set rows. \<forall>r2 \<in> set rows. rpc_key r1 = rpc_key r2 \<longrightarrow> rpc_stat r1 = rpc_stat r2"
    and row: "row \<in> set rows" "rpc_key row \<noteq> []" "rpc_key row \<noteq> ascii ''__proto__''"
  shows "fast_path rows (rpc_key row) = Some (rpc_stat row)"
proof -
  from fold_rpc_defined [OF row] obtain s where s: "fast_path rows (rpc_key row) = Some s"
    by (auto simp: fast_path_def)
  from fold_rpc_entry [of rows Map.empty "rpc_key row" s] s
  obtain row' where "row' \<in> set rows" "rpc_key row' = rpc_key row" "rpc_stat row' = s"
    by (auto simp: fast_path_def)
  with func row(1) have "s = rpc_stat row" by metis
  with s show ?thesis by simp
qed

lemma fast_path_none:
  assumes "\<forall>row \<in> set rows. rpc_key row \<noteq> k \<or> k = [] \<or> k = ascii ''__proto__''"
  shows "fast_path rows k = None"
proof (cases "fast_path rows k")
  case None
  then show ?thesis .
next
  case (Some s)
  from fold_rpc_entry [of rows Map.empty k s] Some assms show ?thesis
    by (auto simp: fast_path_def)
qed

lemma filter_unique:
  assumes "distinct (map f xs)" and "x \<in> set xs"
  shows "filter (\<lambda>y. f y = f x) xs = [x]"
  using assms
proof (induction xs)
  case Nil
  then show ?case by simp
next
  case (Cons y ys)
  show ?case
  proof (cases "y = x")
    case True
    with Cons.prems have "\<forall>z \<in> set ys. f z \<noteq> f x" by (auto simp: image_iff)
    then have "filter (\<lambda>y. f y = f x) ys = []" by (simp add: filter_empty_conv)
    with True show ?thesis by simp
  next
    case False
    with Cons.prems have "x \<in> set ys" "f y \<noteq> f x" by (auto simp: image_iff)
    with Cons show ?thesis by simp
  qed
qed

lemma find_by_filter: "find P xs = (case filter P xs of [] \<Rightarrow> None | x # _ \<Rightarrow> Some x)"
  by (induction xs) auto

lemma concat_map_if: "concat (map (\<lambda>x. if P x then [h x] else []) xs) = map h (filter P xs)"
  by (induction xs) auto

lemma matching_option:
  assumes pk: "vote_options_pkey (db_vote_options d)"
    and fk: "votes_topic_option_fk (db_vote_options d) (db_votes d)"
    and v: "v \<in> set (db_votes d)"
  obtains opt where "option_of d v = Some opt" "opt \<in> set (db_vote_options d)"
    "o_topic_id opt = v_topic_id v" "o_option_key opt = v_option_key v"
    "filter (\<lambda>x. o_topic_id x = v_topic_id v \<and> o_option_key x = v_option_key v) (db_vote_options d) = [opt]"
proof -
  from fk v obtain opt where opt: "opt \<in> set (db_vote_options d)"
      "o_topic_id opt = v_topic_id v" "o_option_key opt = v_option_key v"
    by (auto simp: votes_topic_option_fk_def list_all_iff list_ex_iff)
  from pk have "distinct (map (\<lambda>x. (o_topic_id x, o_option_key x)) (db_vote_options d))"
    by (simp add: vote_options_pkey_def)
  from filter_unique [OF this opt(1)] opt
  have f: "filter (\<lambda>x. o_topic_id x = v_topic_id v \<and> o_option_key x = v_option_key v) (db_vote_options d) = [opt]"
    by simp
  have "option_of d v = Some opt"
    unfolding option_of_def by (simp add: find_by_filter f)
  with opt f that show thesis by blast
qed

lemma scoped_votes:
  assumes pk: "vote_options_pkey (db_vote_options d)"
    and fk: "votes_topic_option_fk (db_vote_options d) (db_votes d)"
  shows "scoped d t level =
           map (\<lambda>v. (nullif (own_code level v) [], o_position (the (option_of d v)))) (topic_votes d t)"
proof -
  have inner: "concat (map (\<lambda>opt. if o_topic_id opt = v_topic_id v \<and> o_option_key opt = v_option_key v \<and> v_topic_id v = t
                         then [(nullif (own_code level v) [], o_position opt)] else []) (db_vote_options d))
       = (if v_topic_id v = t then [(nullif (own_code level v) [], o_position (the (option_of d v)))] else [])"
    if v: "v \<in> set (db_votes d)" for v
  proof (cases "v_topic_id v = t")
    case False
    then show ?thesis by (simp add: concat_map_if)
  next
    case True
    from matching_option [OF pk fk v] obtain opt where opt: "option_of d v = Some opt"
      "filter (\<lambda>x. o_topic_id x = v_topic_id v \<and> o_option_key x = v_option_key v) (db_vote_options d) = [opt]"
      by metis
    from True have "(\<lambda>opt. if o_topic_id opt = v_topic_id v \<and> o_option_key opt = v_option_key v \<and> v_topic_id v = t
                         then [(nullif (own_code level v) [], o_position opt)] else [])
       = (\<lambda>opt. if o_topic_id opt = v_topic_id v \<and> o_option_key opt = v_option_key v
                         then [(nullif (own_code level v) [], o_position opt)] else [])"
      by auto
    then show ?thesis using True opt by (simp add: concat_map_if)
  qed
  have "scoped d t level = concat (map (\<lambda>v. if v_topic_id v = t then [(nullif (own_code level v) [], o_position (the (option_of d v)))] else []) (db_votes d))"
  proof -
    have region_expr: "(case level of Sigungu \<Rightarrow> nullif (v_sigungu_code v) [] | Sido \<Rightarrow> nullif (v_sido_code v) [])
        = nullif (own_code level v) []" for v
      by (cases level) (simp_all add: own_code_def)
    show ?thesis
      unfolding scoped_def region_expr
      by (rule arg_cong [where f = concat], rule map_cong [OF refl]) (rule inner)
  qed
  then show ?thesis
    by (simp add: concat_map_if topic_votes_def)
qed

lemma sum_indicator: "sum_list (map (\<lambda>x. if P x then 1 else 0) xs) = length (filter P xs)"
  by (induction xs) auto

lemma sql_rows:
  assumes pk: "vote_options_pkey (db_vote_options d)"
    and fk: "votes_topic_option_fk (db_vote_options d) (db_votes d)"
  shows "get_region_vote_stats d t level = map (sql_row d t level) (topic_codes d t level)"
proof -
  let ?g = "\<lambda>v. (nullif (own_code level v) [], o_position (the (option_of d v)))"
  let ?tv = "topic_votes d t"
  have sc: "scoped d t level = map ?g ?tv" by (rule scoped_votes [OF pk fk])
  have regs: "[r. (Some r, p) \<leftarrow> map ?g vs] = List.map_filter (\<lambda>v. nullif (own_code level v) []) vs" for vs
    by (induction vs) (auto simp: List.map_filter_simps split: option.splits)
  have grp: "filter (\<lambda>(x, p). x = Some r) (map ?g ?tv)
               = map ?g (filter (\<lambda>v. nullif (own_code level v) [] = Some r) ?tv)" for r
    by (simp add: filter_map comp_def)
  show ?thesis
    unfolding get_region_vote_stats_def agg_def sc regs topic_codes_def
    by (simp add: sql_row_def Let_def grp sum_indicator comp_def split_beta length_filter_map)
qed

lemma distinct_map_eq:
  assumes "distinct (map f xs)" and "x \<in> set xs" and "y \<in> set xs" and "f x = f y"
  shows "x = y"
proof -
  from assms(1) have "inj_on f (set xs)" by (simp add: distinct_map)
  from inj_on_eq_iff [OF this assms(2,3)] assms(4) show ?thesis by simp
qed

lemma slow_options:
  assumes uniq: "vote_options_topic_position_key opts"
    and oa: "oa \<in> set opts" "o_topic_id oa = t" "o_position oa = p"
  shows "find (\<lambda>item. o_position item = p)
           (sort_key o_position (filter (\<lambda>opt. o_topic_id opt = t) opts)) = Some oa"
proof -
  from uniq have dist: "distinct (map (\<lambda>opt. (o_topic_id opt, o_position opt)) opts)"
    by (simp add: vote_options_topic_position_key_def)
  have 1: "filter (\<lambda>item. o_position item = p)
             (sort_key o_position (filter (\<lambda>opt. o_topic_id opt = t) opts))
           = sort_key o_position
               (filter (\<lambda>item. o_position item = p) (filter (\<lambda>opt. o_topic_id opt = t) opts))"
    by (simp only: filter_sort)
  have 2: "filter (\<lambda>item. o_position item = p) (filter (\<lambda>opt. o_topic_id opt = t) opts)
           = filter (\<lambda>opt. (o_topic_id opt, o_position opt) = (o_topic_id oa, o_position oa)) opts"
    unfolding filter_filter by (rule filter_cong) (auto simp: oa)
  have 3: "filter (\<lambda>opt. (o_topic_id opt, o_position opt) = (o_topic_id oa, o_position oa)) opts = [oa]"
    by (rule filter_unique [OF dist oa(1)])
  show ?thesis
    unfolding find_by_filter 1 2 3 by simp
qed

lemma position_key:
  assumes pk: "vote_options_pkey (db_vote_options d)"
    and uniq: "vote_options_topic_position_key (db_vote_options d)"
    and fk: "votes_topic_option_fk (db_vote_options d) (db_votes d)"
    and oa: "oa \<in> set (db_vote_options d)" "o_topic_id oa = t"
    and v: "v \<in> set (topic_votes d t)"
  shows "o_position (the (option_of d v)) = o_position oa \<longleftrightarrow> v_option_key v = o_option_key oa"
proof -
  from v have v': "v \<in> set (db_votes d)" "v_topic_id v = t" by (auto simp: topic_votes_def)
  from matching_option [OF pk fk v'(1)] obtain opt where opt: "option_of d v = Some opt"
    "opt \<in> set (db_vote_options d)" "o_topic_id opt = v_topic_id v" "o_option_key opt = v_option_key v"
    by metis
  from pk have d1: "distinct (map (\<lambda>opt. (o_topic_id opt, o_option_key opt)) (db_vote_options d))"
    by (simp add: vote_options_pkey_def)
  from uniq have d2: "distinct (map (\<lambda>opt. (o_topic_id opt, o_position opt)) (db_vote_options d))"
    by (simp add: vote_options_topic_position_key_def)
  show ?thesis
  proof
    assume "o_position (the (option_of d v)) = o_position oa"
    with opt oa v' have "(o_topic_id opt, o_position opt) = (o_topic_id oa, o_position oa)" by simp
    then have "opt = oa" by (rule distinct_map_eq [OF d2 opt(2) oa(1)])
    with opt show "v_option_key v = o_option_key oa" by simp
  next
    assume "v_option_key v = o_option_key oa"
    with opt oa v' have "(o_topic_id opt, o_option_key opt) = (o_topic_id oa, o_option_key oa)" by simp
    then have "opt = oa" by (rule distinct_map_eq [OF d1 opt(2) oa(1)])
    with opt show "o_position (the (option_of d v)) = o_position oa" by simp
  qed
qed

lemma slow_code_alt:
  "slow_code d level v =
     normalizeCode (case own_code level v of Some c \<Rightarrow> Some c | None \<Rightarrow> school_code d level v)"
proof (cases "find (\<lambda>s. sc_id s = v_school_id v) (db_schools d)")
  case None
  then show ?thesis
    by (cases level)
       (simp_all add: slow_code_def row_regionCode_def select_vote_row_def resolveSchoolCode_def
          school_code_def own_code_def Let_def split: option.splits)
next
  case (Some s)
  then show ?thesis
    by (cases level)
       (simp_all add: slow_code_def row_regionCode_def select_vote_row_def resolveSchoolCode_def
          school_code_def own_code_def Let_def split: option.splits)
qed

lemma slow_code_eq_fast:
  assumes "own_code level v = None \<longrightarrow> normalizeCode (school_code d level v) = None"
  shows "slow_code d level v = fast_code level v"
proof (cases "own_code level v")
  case None
  with assms show ?thesis
    by (simp add: slow_code_alt fast_code_def nullif_def)
next
  case (Some c)
  then show ?thesis
    by (simp add: slow_code_alt fast_code_def nullif_def normalizeCode_def Let_def)
qed

lemma length_filter_sort: "length (filter P (sort_key f xs)) = length (filter P xs)"
  by (simp add: filter_sort)

lemma slow_map_gen:
  "fst (buildStatsFromVoteRows (fetchAllVotesByTopic d t) level a b) k =
     (let vs = filter (\<lambda>v. slow_code d level v = Some k) (topic_votes d t);
          cA = length (filter (\<lambda>v. v_option_key v = a) vs);
          cB = length (filter (\<lambda>v. v_option_key v = b) vs)
      in if vs = [] \<or> k = ascii ''__proto__'' then None
         else Some \<lparr>winner = winner_of cA cB, total = length vs, countA = cA, countB = cB\<rparr>)"
proof -
  let ?tv = "topic_votes d t"
  let ?vs = "filter (\<lambda>v. slow_code d level v = Some k) ?tv"
  let ?rs = "filter (\<lambda>r. row_regionCode level r = Some k) (fetchAllVotesByTopic d t)"
  have rs: "?rs = map (select_vote_row d) (sort_key v_created_at ?vs)"
  proof -
    have "?rs = map (select_vote_row d)
                  (filter (\<lambda>v. slow_code d level v = Some k) (sort_key v_created_at ?tv))"
      by (simp add: fetchAll_votes_by_topic votes_by_topic_def topic_votes_def filter_map
          comp_def slow_code_def)
    then show ?thesis by (simp add: filter_sort)
  qed
  have key: "option_key (select_vote_row d v) = v_option_key v" for v
    by (simp add: select_vote_row_def)
  have cnt: "length (filter (\<lambda>r. option_key r = x) (map (select_vote_row d) (sort_key v_created_at ?vs)))
               = length (filter (\<lambda>v. v_option_key v = x) ?vs)" for x
    by (simp add: filter_map comp_def key length_filter_sort)
  have nil: "(map (select_vote_row d) (sort_key v_created_at ?vs) = []) = (?vs = [])"
    by (simp add: set_empty [symmetric] del: set_empty)
  have t: "tally a b (map (select_vote_row d) (sort_key v_created_at ?vs))
      = \<lparr>winner = winner_of (length (filter (\<lambda>v. v_option_key v = a) ?vs))
                             (length (filter (\<lambda>v. v_option_key v = b) ?vs)),
         total = length ?vs,
         countA = length (filter (\<lambda>v. v_option_key v = a) ?vs),
         countB = length (filter (\<lambda>v. v_option_key v = b) ?vs)\<rparr>"
    by (simp only: tally_def Let_def cnt length_map length_sort)
  show ?thesis
    apply (subst build_map)
    apply (simp only: Let_def rs nil t)
    done
qed

lemma slow_map:
  assumes same: "\<forall>v \<in> set (topic_votes d t). slow_code d level v = fast_code level v"
  shows "fst (buildStatsFromVoteRows (fetchAllVotesByTopic d t) level a b) k =
     (let vs = filter (\<lambda>v. fast_code level v = Some k) (topic_votes d t);
          cA = length (filter (\<lambda>v. v_option_key v = a) vs);
          cB = length (filter (\<lambda>v. v_option_key v = b) vs)
      in if vs = [] \<or> k = ascii ''__proto__'' then None
         else Some \<lparr>winner = winner_of cA cB, total = length vs, countA = cA, countB = cB\<rparr>)"
proof -
  have "filter (\<lambda>v. slow_code d level v = Some k) (topic_votes d t)
          = filter (\<lambda>v. fast_code level v = Some k) (topic_votes d t)"
    using same by (intro filter_cong) auto
  then show ?thesis
    unfolding slow_map_gen by simp
qed

lemma set_map_filter: "set (List.map_filter f xs) = {y. \<exists>x \<in> set xs. f x = Some y}"
  by (induction xs) (auto simp: map_filter_simps split: option.splits)

lemma topic_codes_set:
  "set (topic_codes d t level) = {r. \<exists>v \<in> set (topic_votes d t). nullif (own_code level v) [] = Some r}"
  by (simp add: topic_codes_def set_map_filter)

lemma fast_code_Some:
  "fast_code level v = Some k \<longleftrightarrow> (\<exists>r. nullif (own_code level v) [] = Some r \<and> trim r = k \<and> k \<noteq> [])"
  by (auto simp: fast_code_def split: option.splits)

lemma rpc_key_sql_row: "rpc_key (sql_row d t level r) = trim r"
  by (simp add: rpc_key_def sql_row_def Let_def)

lemma rpc_stat_sql_row:
  "rpc_stat (sql_row d t level r) =
     (let grp = filter (\<lambda>v. nullif (own_code level v) [] = Some r) (topic_votes d t);
          ca = length (filter (\<lambda>v. o_position (the (option_of d v)) = 1) grp);
          cb = length (filter (\<lambda>v. o_position (the (option_of d v)) = 2) grp)
      in \<lparr>winner = winner_of ca cb, total = length grp, countA = ca, countB = cb\<rparr>)"
  by (simp add: rpc_stat_def sql_row_def Let_def winner_of_def winner_text_distinct
      winner_text_distinct [symmetric])

text \<open>The map of the fast path, under the primary key of \<^verbatim>\<open>vote_options\<close> and the
  foreign key of \<^verbatim>\<open>votes\<close>, when no two stored codes of the topic coincide after
  trimming, whatever the order of the rows.\<close>

lemma fast_map:
  assumes pk: "vote_options_pkey (db_vote_options d)"
    and fk: "votes_topic_option_fk (db_vote_options d) (db_votes d)"
    and inj: "distinct (map trim (topic_codes d t level))"
    and rpc: "set rpcRows = set (get_region_vote_stats d t level)"
  shows "fast_path rpcRows k =
     (let vs = filter (\<lambda>v. fast_code level v = Some k) (topic_votes d t);
          ca = length (filter (\<lambda>v. o_position (the (option_of d v)) = 1) vs);
          cb = length (filter (\<lambda>v. o_position (the (option_of d v)) = 2) vs)
      in if vs = [] \<or> k = ascii ''__proto__'' then None
         else Some \<lparr>winner = winner_of ca cb, total = length vs, countA = ca, countB = cb\<rparr>)"
proof -
  let ?tv = "topic_votes d t"
  have rows: "set rpcRows = sql_row d t level ` set (topic_codes d t level)"
    using rpc sql_rows [OF pk fk, of t level] by simp
  have code_eq: "r1 = r2"
    if "r1 \<in> set (topic_codes d t level)" "r2 \<in> set (topic_codes d t level)" "trim r1 = trim r2"
    for r1 r2
    using distinct_map_eq [OF inj that] .
  have func: "\<forall>r1 \<in> set rpcRows. \<forall>r2 \<in> set rpcRows.
                rpc_key r1 = rpc_key r2 \<longrightarrow> rpc_stat r1 = rpc_stat r2"
  proof (intro ballI impI)
    fix x y assume "x \<in> set rpcRows" "y \<in> set rpcRows" and k: "rpc_key x = rpc_key y"
    then obtain r1 r2 where r: "r1 \<in> set (topic_codes d t level)" "x = sql_row d t level r1"
        "r2 \<in> set (topic_codes d t level)" "y = sql_row d t level r2"
      unfolding rows by blast
    from k r have "trim r1 = trim r2" by (simp add: rpc_key_sql_row)
    from code_eq [OF r(1) r(3) this] r show "rpc_stat x = rpc_stat y" by simp
  qed
  show ?thesis
  proof (cases "k = ascii ''__proto__''")
    case True
    then have "\<forall>row \<in> set rpcRows. rpc_key row \<noteq> k \<or> k = [] \<or> k = ascii ''__proto__''"
      by simp
    from fast_path_none [OF this] True show ?thesis
      by (simp add: Let_def)
  next
    case plain: False
    show ?thesis
    proof (cases "\<exists>v \<in> set ?tv. fast_code level v = Some k")
      case True
      then obtain v r where v: "v \<in> set ?tv" and r: "nullif (own_code level v) [] = Some r"
          "trim r = k" "k \<noteq> []"
        unfolding fast_code_Some by blast
      let ?grp = "filter (\<lambda>v. nullif (own_code level v) [] = Some r) ?tv"
      from v r(1) have rin: "r \<in> set (topic_codes d t level)"
        unfolding topic_codes_set by blast
      then have "sql_row d t level r \<in> set rpcRows" unfolding rows by blast
      from fast_path_some [OF func this] r(2,3) plain
      have fast: "fast_path rpcRows k = Some (rpc_stat (sql_row d t level r))"
        by (simp add: rpc_key_sql_row)
      have grp: "filter (\<lambda>v. fast_code level v = Some k) ?tv = ?grp"
      proof (rule filter_cong [OF refl])
        fix w assume w: "w \<in> set ?tv"
        show "(fast_code level w = Some k) = (nullif (own_code level w) [] = Some r)"
        proof
          assume "fast_code level w = Some k"
          then obtain r' where r': "nullif (own_code level w) [] = Some r'" "trim r' = k"
            unfolding fast_code_Some by blast
          with w have "r' \<in> set (topic_codes d t level)" unfolding topic_codes_set by blast
          from code_eq [OF this rin] r' r(2) have "r' = r" by simp
          with r' show "nullif (own_code level w) [] = Some r" by simp
        next
          assume "nullif (own_code level w) [] = Some r"
          with r(2,3) show "fast_code level w = Some k" unfolding fast_code_Some by blast
        qed
      qed
      have ne: "?grp \<noteq> []"
        using v r(1) by (auto simp: filter_empty_conv)
      show ?thesis
        unfolding fast rpc_stat_sql_row Let_def grp using ne plain by simp
    next
      case False
      then have nil: "filter (\<lambda>v. fast_code level v = Some k) ?tv = []"
        by (simp add: filter_empty_conv)
      have "\<forall>row \<in> set rpcRows. rpc_key row \<noteq> k \<or> k = [] \<or> k = ascii ''__proto__''"
      proof (intro ballI)
        fix row assume "row \<in> set rpcRows"
        then obtain r where r: "r \<in> set (topic_codes d t level)" "row = sql_row d t level r"
          unfolding rows by blast
        from r(1) obtain v where v: "v \<in> set ?tv" "nullif (own_code level v) [] = Some r"
          unfolding topic_codes_set by blast
        show "rpc_key row \<noteq> k \<or> k = [] \<or> k = ascii ''__proto__''"
        proof (rule ccontr)
          assume "\<not> (rpc_key row \<noteq> k \<or> k = [] \<or> k = ascii ''__proto__'')"
          then have "trim r = k" "k \<noteq> []" using r(2) by (simp_all add: rpc_key_sql_row)
          with v(2) have "fast_code level v = Some k" unfolding fast_code_Some by blast
          with v(1) False show False by blast
        qed
      qed
      from fast_path_none [OF this] show ?thesis
        unfolding Let_def nil by simp
    qed
  qed
qed

subsection \<open>The two example tables\<close>

lemmas example_defs = gap_db_def full_db_def example_vote_def example_options_def
  example_school_def popular_vote_def ascii_def

lemma trim_11: "trim (ascii ''11'') = ascii ''11''"
  by (simp add: trim_def ascii_def is_space_def)

lemma gap_sql:
  "get_region_vote_stats gap_db popular_vote Sido =
     [\<lparr>region = Some (ascii ''11''), r_total = 1, count_a = 1, count_b = 0, r_winner = ascii ''A''\<rparr>]"
  by (simp add: get_region_vote_stats_def agg_def scoped_def nullif_def example_defs)

lemma gap_fast:
  "fast_path (get_region_vote_stats gap_db popular_vote Sido) (ascii ''11'')
     = Some \<lparr>winner = A, total = 1, countA = 1, countB = 0\<rparr>"
  unfolding gap_sql
  by (simp add: fast_path_def rpc_row_step_def assign_entry_def Let_def normalizeInt_def trim_def
      is_space_def ascii_def)

lemma gap_rows:
  "fetchAllVotesByTopic gap_db popular_vote =
     [\<lparr>option_key = ascii ''seoul'', sido_code = Some (ascii ''11''), sigungu_code = None,
       school = SchoolObject \<lparr>ls_sido_code = Some (ascii ''11''), ls_sigungu_code = Some (ascii ''11010'')\<rparr>\<rparr>,
      \<lparr>option_key = ascii ''busan'', sido_code = None, sigungu_code = None,
       school = SchoolObject \<lparr>ls_sido_code = Some (ascii ''11''), ls_sigungu_code = Some (ascii ''11010'')\<rparr>\<rparr>]"
  by (simp add: fetchAll_votes_by_topic votes_by_topic_def select_vote_row_def example_defs)

lemma gap_slow:
  "slow_path gap_db popular_vote Sido =
     Inr (buildStatsFromVoteRows (fetchAllVotesByTopic gap_db popular_vote) Sido (ascii ''seoul'') (ascii ''busan''))"
  by (simp add: slow_path_def Let_def example_defs)

lemma gap_slow_11:
  "fst (buildStatsFromVoteRows (fetchAllVotesByTopic gap_db popular_vote) Sido (ascii ''seoul'') (ascii ''busan''))
     (ascii ''11'') = Some \<lparr>winner = TIE, total = 2, countA = 1, countB = 1\<rparr>"
  unfolding build_map gap_rows
  by (simp add: row_regionCode_def resolveSchoolCode_def normalizeCode_def Let_def tally_def
      winner_of_def trim_def is_space_def ascii_def)

text \<open>
  Claim C2, as stated, fails. In \<open>gap_db\<close> the topic has two votes linked to a school of
  province 11; the first carries the code 11 itself, the second has no code of its own.
  The database function groups by the vote's own code only and reports one vote for
  region 11, won by A; the scan falls back to the school's code for the second vote and
  reports two votes, a tie.
\<close>

theorem C2_paths_differ_on_school_codes:
  "fast_path (get_region_vote_stats gap_db popular_vote Sido) (ascii ''11'')
     = Some \<lparr>winner = A, total = 1, countA = 1, countB = 0\<rparr> \<and>
   (\<exists>statsByCode sm. slow_path gap_db popular_vote Sido = Inr (statsByCode, sm) \<and>
      statsByCode (ascii ''11'') = Some \<lparr>winner = TIE, total = 2, countA = 1, countB = 1\<rparr>)"
proof -
  obtain m sm where b: "buildStatsFromVoteRows (fetchAllVotesByTopic gap_db popular_vote) Sido
      (ascii ''seoul'') (ascii ''busan'') = (m, sm)"
    by (cases "buildStatsFromVoteRows (fetchAllVotesByTopic gap_db popular_vote) Sido
      (ascii ''seoul'') (ascii ''busan'')") auto
  with gap_slow_11 have "m (ascii ''11'') = Some \<lparr>winner = TIE, total = 2, countA = 1, countB = 1\<rparr>"
    by simp
  with gap_slow b gap_fast show ?thesis by auto
qed

text \<open>
  Claim C2, amended: the two paths produce the same map (the same total, countA, countB
  and winner under every region code) for a topic that has an option with a non-empty
  key at each of the positions 1 and 2, under the key constraints of \<^verbatim>\<open>vote_options\<close>
  and the foreign key of \<^verbatim>\<open>votes\<close>, provided that no vote of the topic lacks its own
  code for the level while its linked school has a usable one, and that no two different
  stored codes of the topic become equal after trimming. The order in which the database
  returns the rows of the function does not matter.
\<close>

theorem C2_paths_agree_on_own_codes:
  assumes pk: "vote_options_pkey (db_vote_options d)"
    and uniq: "vote_options_topic_position_key (db_vote_options d)"
    and fk: "votes_topic_option_fk (db_vote_options d) (db_votes d)"
    and oa: "oa \<in> set (db_vote_options d)" "o_topic_id oa = t" "o_position oa = 1"
            "o_option_key oa \<noteq> []"
    and ob: "ob \<in> set (db_vote_options d)" "o_topic_id ob = t" "o_position ob = 2"
            "o_option_key ob \<noteq> []"
    and own: "\<forall>v \<in> set (topic_votes d t).
                own_code level v = None \<longrightarrow> normalizeCode (school_code d level v) = None"
    and inj: "distinct (map trim (topic_codes d t level))"
    and rpc: "set rpcRows = set (get_region_vote_stats d t level)"
  shows "\<exists>sm. slow_path d t level = Inr (fast_path rpcRows, sm)"
proof -
  let ?tv = "topic_votes d t"
  let ?a = "o_option_key oa" and ?b = "o_option_key ob"
  let ?build = "buildStatsFromVoteRows (fetchAllVotesByTopic d t) level ?a ?b"
  have slow: "slow_path d t level = Inr ?build"
    using slow_options [OF uniq oa(1,2,3)] slow_options [OF uniq ob(1,2,3)] oa(4) ob(4)
    by (simp add: slow_path_def Let_def)
  have same: "\<forall>v \<in> set ?tv. slow_code d level v = fast_code level v"
    using own slow_code_eq_fast by blast
  have "fst ?build k = fast_path rpcRows k" for k
  proof -
    let ?vs = "filter (\<lambda>v. fast_code level v = Some k) ?tv"
    have ca: "length (filter (\<lambda>v. o_position (the (option_of d v)) = 1) ?vs)
                = length (filter (\<lambda>v. v_option_key v = ?a) ?vs)"
    proof (rule arg_cong [where f = length], rule filter_cong [OF refl])
      fix v assume "v \<in> set ?vs"
      then have "v \<in> set ?tv" by simp
      from position_key [OF pk uniq fk oa(1,2) this] oa(3)
      show "(o_position (the (option_of d v)) = 1) = (v_option_key v = ?a)" by simp
    qed
    have cb: "length (filter (\<lambda>v. o_position (the (option_of d v)) = 2) ?vs)
                = length (filter (\<lambda>v. v_option_key v = ?b) ?vs)"
    proof (rule arg_cong [where f = length], rule filter_cong [OF refl])
      fix v assume "v \<in> set ?vs"
      then have "v \<in> set ?tv" by simp
      from position_key [OF pk uniq fk ob(1,2) this] ob(3)
      show "(o_position (the (option_of d v)) = 2) = (v_option_key v = ?b)" by simp
    qed
    show ?thesis
      unfolding slow_map [OF same] fast_map [OF pk fk inj rpc] Let_def ca cb by (rule refl)
  qed
  then have "fst ?build = fast_path rpcRows" by (rule ext)
  then have "?build = (fast_path rpcRows, snd ?build)" by (simp add: prod_eq_iff)
  with slow show ?thesis by metis
qed

lemma full_codes: "topic_codes full_db popular_vote Sido = [ascii ''11'']"
  by (simp add: topic_codes_def topic_votes_def own_code_def nullif_def map_filter_simps
      example_defs)

theorem C2_paths_agree_on_own_codes_witness:
  "\<exists>sm. slow_path full_db popular_vote Sido
          = Inr (fast_path (get_region_vote_stats full_db popular_vote Sido), sm)"
proof -
  have pk: "vote_options_pkey (db_vote_options full_db)"
    by (simp add: vote_options_pkey_def example_defs)
  have uniq: "vote_options_topic_position_key (db_vote_options full_db)"
    by (simp add: vote_options_topic_position_key_def example_defs)
  have fk: "votes_topic_option_fk (db_vote_options full_db) (db_votes full_db)"
    by (simp add: votes_topic_option_fk_def example_defs)
  have oa: "example_options ! 0 \<in> set (db_vote_options full_db)"
      "o_topic_id (example_options ! 0) = popular_vote" "o_position (example_options ! 0) = 1"
      "o_option_key (example_options ! 0) \<noteq> []"
    by (simp_all add: example_defs)
  have ob: "example_options ! 1 \<in> set (db_vote_options full_db)"
      "o_topic_id (example_options ! 1) = popular_vote" "o_position (example_options ! 1) = 2"
      "o_option_key (example_options ! 1) \<noteq> []"
    by (simp_all add: example_defs)
  have own: "\<forall>v \<in> set (topic_votes full_db popular_vote).
      own_code Sido v = None \<longrightarrow> normalizeCode (school_code full_db Sido v) = None"
    by (simp add: topic_votes_def own_code_def example_defs)
  have inj: "distinct (map trim (topic_codes full_db popular_vote Sido))"
    by (simp add: full_codes)
  show ?thesis
    by (rule C2_paths_agree_on_own_codes [OF pk uniq fk oa ob own inj refl])
qed

lemma trim_empty: "trim [] = []"
  by (simp add: trim_def)

lemma normalizeCode_Some: "normalizeCode (Some c) = (if trim c = [] then None else Some (trim c))"
  by (auto simp: normalizeCode_def Let_def trim_empty)

lemma usable_Some: "usable c = Some k \<longleftrightarrow> trim c = k \<and> k \<noteq> [] \<and> k \<noteq> ascii ''__proto__''"
  by (auto simp: usable_def)

lemma counted_slow_iff:
  "counted_slow d level v = Some k \<longleftrightarrow> slow_code d level v = Some k \<and> k \<noteq> ascii ''__proto__''"
proof (cases "own_code level v")
  case (Some c)
  then show ?thesis
    by (auto simp: counted_slow_def slow_code_alt normalizeCode_Some usable_Some)
next
  case None
  then show ?thesis
    by (cases "school_code d level v")
       (auto simp: counted_slow_def slow_code_alt normalizeCode_Some usable_Some
          normalizeCode_def [of None])
qed

lemma counted_fast_iff:
  "counted_fast level v = Some k \<longleftrightarrow> fast_code level v = Some k \<and> k \<noteq> ascii ''__proto__''"
proof (cases "own_code level v")
  case (Some c)
  then show ?thesis
    by (cases "c = []")
       (auto simp: counted_fast_def fast_code_def nullif_def usable_Some trim_empty)
next
  case None
  then show ?thesis
    by (simp add: counted_fast_def fast_code_def nullif_def)
qed

lemma filter_and_const:
  "filter (\<lambda>v. P v \<and> Q) xs = (if Q then filter P xs else [])"
  by (induction xs) auto

lemma total_at_slow:
  assumes "slow_path d t level = Inr (m, sm)"
  shows "total_at m k = length (filter (\<lambda>v. counted_slow d level v = Some k) (topic_votes d t))"
proof -
  from assms obtain a b where
    "buildStatsFromVoteRows (fetchAllVotesByTopic d t) level a b = (m, sm)"
    by (auto simp: slow_path_def Let_def split: option.splits if_splits)
  then have "m k = fst (buildStatsFromVoteRows (fetchAllVotesByTopic d t) level a b) k" by simp
  then show ?thesis
    unfolding total_at_def slow_map_gen Let_def counted_slow_iff filter_and_const by simp
qed

lemma total_at_fast:
  assumes "vote_options_pkey (db_vote_options d)"
    and "votes_topic_option_fk (db_vote_options d) (db_votes d)"
    and "distinct (map trim (topic_codes d t level))"
    and "set rpcRows = set (get_region_vote_stats d t level)"
  shows "total_at (fast_path rpcRows) k
           = length (filter (\<lambda>v. counted_fast level v = Some k) (topic_votes d t))"
  unfolding total_at_def fast_map [OF assms] Let_def counted_fast_iff filter_and_const by simp


lemma blank_rpc: "get_region_vote_stats blank_db popular_vote Sido = []"
  by (simp add: get_region_vote_stats_def agg_def scoped_def nullif_def blank_db_def example_defs)

lemma blank_slow:
  "slow_path blank_db popular_vote Sido
     = Inr (Map.empty, \<lparr>totalVotes = 0, sum_countA = 0, sum_countB = 0\<rparr>)"
proof -
  have rows: "fetchAllVotesByTopic blank_db popular_vote =
     [\<lparr>option_key = ascii ''seoul'', sido_code = Some [], sigungu_code = None,
       school = SchoolObject \<lparr>ls_sido_code = Some (ascii ''11''), ls_sigungu_code = Some (ascii ''11010'')\<rparr>\<rparr>]"
    by (simp add: fetchAll_votes_by_topic votes_by_topic_def select_vote_row_def blank_db_def
        example_defs)
  have "slow_path blank_db popular_vote Sido =
     Inr (buildStatsFromVoteRows (fetchAllVotesByTopic blank_db popular_vote) Sido
            (ascii ''seoul'') (ascii ''busan''))"
    by (simp add: slow_path_def Let_def blank_db_def example_defs)
  then show ?thesis
    unfolding rows
    by (simp add: buildStatsFromVoteRows_def stats_step_def row_regionCode_def
        resolveSchoolCode_def normalizeCode_def Let_def)
qed

text \<open>
  Claim C7, as stated, fails, in two ways. The second vote of \<open>gap_db\<close> has no province
  code of its own and its linked school has code 11, so the claim counts it under 11; the
  handler answers from the fast path, which never reads the school: region 11 has one
  vote, the first one. The vote of \<open>blank_db\<close> has the empty string as its own province
  code and its linked school has code 11, so the claim counts it under 11 as well; the
  database function returns no row, the handler falls back to the scan, and the scan,
  which reads the school's code only when the vote's own code is null, leaves the vote
  out: the answer has no region at all.
\<close>

theorem C7_usable_school_code_not_counted:
  "example_vote ''v2'' ''busan'' None 20 \<in> set (db_votes gap_db) \<and>
   own_code Sido (example_vote ''v2'' ''busan'' None 20) = None \<and>
   school_code gap_db Sido (example_vote ''v2'' ''busan'' None 20) = Some (ascii ''11'') \<and>
   (\<exists>statsByCode sm.
      region_stats_GET gap_db popular_vote Sido
        (Inr (get_region_vote_stats gap_db popular_vote Sido)) = Inr (statsByCode, sm) \<and>
      statsByCode (ascii ''11'') = Some \<lparr>winner = A, total = 1, countA = 1, countB = 0\<rparr>) \<and>
   example_vote ''v3'' ''seoul'' (Some []) 10 \<in> set (db_votes blank_db) \<and>
   own_code Sido (example_vote ''v3'' ''seoul'' (Some []) 10) = Some [] \<and>
   school_code blank_db Sido (example_vote ''v3'' ''seoul'' (Some []) 10) = Some (ascii ''11'') \<and>
   region_stats_GET blank_db popular_vote Sido
       (Inr (get_region_vote_stats blank_db popular_vote Sido))
     = Inr (Map.empty, \<lparr>totalVotes = 0, sum_countA = 0, sum_countB = 0\<rparr>)"
proof -
  have 1: "example_vote ''v2'' ''busan'' None 20 \<in> set (db_votes gap_db)"
    by (simp add: gap_db_def)
  have 2: "own_code Sido (example_vote ''v2'' ''busan'' None 20) = None"
    by (simp add: own_code_def example_vote_def)
  have 3: "school_code gap_db Sido (example_vote ''v2'' ''busan'' None 20) = Some (ascii ''11'')"
    by (simp add: school_code_def example_defs)
  have ne: "fast_path (get_region_vote_stats gap_db popular_vote Sido) \<noteq> Map.empty"
    using gap_fast by (metis option.distinct(1))
  have "\<exists>sm. region_stats_GET gap_db popular_vote Sido
        (Inr (get_region_vote_stats gap_db popular_vote Sido))
       = Inr (fast_path (get_region_vote_stats gap_db popular_vote Sido), sm)"
    using ne by (simp add: region_stats_GET_def Let_def)
  with gap_fast have 4: "\<exists>statsByCode sm.
      region_stats_GET gap_db popular_vote Sido
        (Inr (get_region_vote_stats gap_db popular_vote Sido)) = Inr (statsByCode, sm) \<and>
      statsByCode (ascii ''11'') = Some \<lparr>winner = A, total = 1, countA = 1, countB = 0\<rparr>"
    by blast
  have 5: "example_vote ''v3'' ''seoul'' (Some []) 10 \<in> set (db_votes blank_db)"
    by (simp add: blank_db_def)
  have 6: "own_code Sido (example_vote ''v3'' ''seoul'' (Some []) 10) = Some []"
    by (simp add: own_code_def example_vote_def)
  have 7: "school_code blank_db Sido (example_vote ''v3'' ''seoul'' (Some []) 10) = Some (ascii ''11'')"
    by (simp add: school_code_def blank_db_def example_defs)
  have 8: "region_stats_GET blank_db popular_vote Sido
       (Inr (get_region_vote_stats blank_db popular_vote Sido))
     = Inr (Map.empty, \<lparr>totalVotes = 0, sum_countA = 0, sum_countB = 0\<rparr>)"
    unfolding blank_rpc by (simp add: region_stats_GET_def fast_path_def Let_def blank_slow)
  from 1 2 3 4 5 6 7 8 show ?thesis by blast
qed

text \<open>
  Claim C7, amended. A stored code is usable when, trimmed, it is not empty (and is not
  the key \<^verbatim>\<open>__proto__\<close>, which neither path can report). Slow path, the scan: a vote of
  the topic whose own code for the level is not null is counted under its trimmed own code
  when that code is usable and is left out otherwise, whatever its school's code is; a
  vote whose own code is null is counted under the trimmed code of its linked school when
  that is usable and is left out otherwise. Fast path, the database function (under the
  primary key of \<^verbatim>\<open>vote_options\<close> and the foreign key of \<^verbatim>\<open>votes\<close>, for codes of the
  topic that stay distinct after trimming, whatever the order of the rows): a vote is
  counted under its trimmed own code when that is usable and is left out otherwise; the
  linked school is not consulted. In both cases the total reported under a region code is
  the number of votes the rule counts under it.
\<close>

theorem C7_rows_counted:
  "(slow_path d t level = Inr (m, sm) \<longrightarrow>
      total_at m k = length (filter (\<lambda>v. counted_slow d level v = Some k) (topic_votes d t))) \<and>
   (vote_options_pkey (db_vote_options d) \<and>
    votes_topic_option_fk (db_vote_options d) (db_votes d) \<and>
    distinct (map trim (topic_codes d t level)) \<and>
    set rpcRows = set (get_region_vote_stats d t level) \<longrightarrow>
      total_at (fast_path rpcRows) k
        = length (filter (\<lambda>v. counted_fast level v = Some k) (topic_votes d t)))"
proof (intro conjI impI)
  show "total_at m k = length (filter (\<lambda>v. counted_slow d level v = Some k) (topic_votes d t))"
    if "slow_path d t level = Inr (m, sm)"
    using that by (rule total_at_slow)
  show "total_at (fast_path rpcRows) k
          = length (filter (\<lambda>v. counted_fast level v = Some k) (topic_votes d t))"
    if "vote_options_pkey (db_vote_options d) \<and>
        votes_topic_option_fk (db_vote_options d) (db_votes d) \<and>
        distinct (map trim (topic_codes d t level)) \<and>
        set rpcRows = set (get_region_vote_stats d t level)"
    using that by (intro total_at_fast) simp_all
qed

text \<open>On \<open>gap_db\<close> the scan counts both votes under 11, the second one through its school,
  and the database function counts the first one only.\<close>

theorem C7_rows_counted_witness:
  "(\<exists>m sm. slow_path gap_db popular_vote Sido = Inr (m, sm) \<and> total_at m (ascii ''11'') = 2) \<and>
   counted_slow gap_db Sido (example_vote ''v2'' ''busan'' None 20) = Some (ascii ''11'') \<and>
   total_at (fast_path (get_region_vote_stats gap_db popular_vote Sido)) (ascii ''11'') = 1 \<and>
   counted_fast Sido (example_vote ''v2'' ''busan'' None 20) = None"
proof -
  let ?v1 = "example_vote ''v1'' ''seoul'' (Some (ascii ''11'')) 10"
  let ?v2 = "example_vote ''v2'' ''busan'' None 20"
  let ?b = "buildStatsFromVoteRows (fetchAllVotesByTopic gap_db popular_vote) Sido
       (ascii ''seoul'') (ascii ''busan'')"
  let ?rpc = "get_region_vote_stats gap_db popular_vote Sido"
  note T = C7_rows_counted [of gap_db popular_vote Sido "fst ?b" "snd ?b" "ascii ''11''" ?rpc]
  have votes: "topic_votes gap_db popular_vote = [?v1, ?v2]"
    by (simp add: topic_votes_def gap_db_def example_vote_def)
  have use: "usable (ascii ''11'') = Some (ascii ''11'')"
    by (simp add: usable_def trim_11) (simp add: ascii_def)
  have s1: "counted_slow gap_db Sido ?v1 = Some (ascii ''11'')"
    by (simp add: counted_slow_def own_code_def example_vote_def use)
  have sch: "school_code gap_db Sido ?v2 = Some (ascii ''11'')"
    by (simp add: school_code_def example_defs)
  have s2: "counted_slow gap_db Sido ?v2 = Some (ascii ''11'')"
  proof -
    have "own_code Sido ?v2 = None" by (simp add: own_code_def example_vote_def)
    then show ?thesis by (simp add: counted_slow_def sch use)
  qed
  have f1: "counted_fast Sido ?v1 = Some (ascii ''11'')"
    by (simp add: counted_fast_def own_code_def example_vote_def use)
  have f2: "counted_fast Sido ?v2 = None"
    by (simp add: counted_fast_def own_code_def example_vote_def)
  have slow: "slow_path gap_db popular_vote Sido = Inr (fst ?b, snd ?b)"
    using gap_slow by simp
  from T slow have t2: "total_at (fst ?b) (ascii ''11'') = 2" by (simp add: votes s1 s2)
  have pk: "vote_options_pkey (db_vote_options gap_db)"
    by (simp add: vote_options_pkey_def example_defs)
  have fk: "votes_topic_option_fk (db_vote_options gap_db) (db_votes gap_db)"
    by (simp add: votes_topic_option_fk_def example_defs)
  have inj: "distinct (map trim (topic_codes gap_db popular_vote Sido))"
    by (simp add: topic_codes_def votes own_code_def nullif_def map_filter_simps example_vote_def)
  from T pk fk inj have t1: "total_at (fast_path ?rpc) (ascii ''11'') = 1" by (simp add: votes f1 f2)
  from slow t2 have "\<exists>m sm. slow_path gap_db popular_vote Sido = Inr (m, sm) \<and> total_at m (ascii ''11'') = 2"
    by blast
  with s2 t1 f2 show ?thesis by simp
qed

text \<open>
  Claim C8: in every per-region entry, of the fast path (whatever the order in which the
  database returns the rows of \<open>get_region_vote_stats\<close>) and of the slow path, the winner
  is A exactly when countA is strictly greater than countB, B exactly when countB is
  strictly greater than countA, and TIE exactly when the two are equal.
\<close>

theorem C8_winner_rule:
  assumes "(set rpcRows = set (get_region_vote_stats d topicId level) \<and> fast_path rpcRows code = Some s) \<or>
           (slow_path d topicId level = Inr (statsByCode, sm) \<and> statsByCode code = Some s)"
  shows "(winner s = A \<longleftrightarrow> countB s < countA s) \<and>
         (winner s = B \<longleftrightarrow> countA s < countB s) \<and>
         (winner s = TIE \<longleftrightarrow> countA s = countB s)"
proof -
  have "winner s = winner_of (countA s) (countB s)"
    using assms
  proof (elim disjE conjE)
    assume rows: "set rpcRows = set (get_region_vote_stats d topicId level)"
      and s: "fast_path rpcRows code = Some s"
    from s obtain row where "row \<in> set rpcRows" "rpc_stat row = s"
      using fold_rpc_entry [of rpcRows Map.empty code s] by (auto simp: fast_path_def)
    with rows sql_row_winner [of row d topicId level] show ?thesis by auto
  next
    assume "slow_path d topicId level = Inr (statsByCode, sm)" and s: "statsByCode code = Some s"
    then obtain a b where
      "buildStatsFromVoteRows (fetchAllVotesByTopic d topicId) level a b = (statsByCode, sm)"
      by (auto simp: slow_path_def Let_def split: option.splits if_splits)
    then have "statsByCode = fst (buildStatsFromVoteRows (fetchAllVotesByTopic d topicId) level a b)"
      by simp
    with build_consistent [of "fetchAllVotesByTopic d topicId" level a b] s show ?thesis
      by (auto simp: consistent_def)
  qed
  with winner_of_rule [of "countA s" "countB s"] show ?thesis by simp
qed

theorem C8_winner_rule_witness:
  "(\<exists>s. fast_path (get_region_vote_stats gap_db popular_vote Sido) (ascii ''11'') = Some s \<and>
        winner s = A \<and> countB s < countA s) \<and>
   (\<exists>statsByCode sm s. slow_path gap_db popular_vote Sido = Inr (statsByCode, sm) \<and>
        statsByCode (ascii ''11'') = Some s \<and> winner s = TIE \<and> countA s = countB s)"
proof -
  let ?sf = "\<lparr>winner = A, total = 1, countA = 1, countB = 0\<rparr>"
  let ?ss = "\<lparr>winner = TIE, total = 2, countA = 1, countB = 1\<rparr>"
  let ?b = "buildStatsFromVoteRows (fetchAllVotesByTopic gap_db popular_vote) Sido
       (ascii ''seoul'') (ascii ''busan'')"
  have "countB ?sf < countA ?sf" by simp
  with C8_winner_rule [of "get_region_vote_stats gap_db popular_vote Sido" gap_db popular_vote Sido
      "ascii ''11''" ?sf] gap_fast
  have "winner ?sf = A" by blast
  with gap_fast have fast: "\<exists>s. fast_path (get_region_vote_stats gap_db popular_vote Sido) (ascii ''11'') = Some s \<and>
        winner s = A \<and> countB s < countA s" by simp
  have slow: "slow_path gap_db popular_vote Sido = Inr (fst ?b, snd ?b)"
    using gap_slow by simp
  have "countA ?ss = countB ?ss" by simp
  with C8_winner_rule [of _ gap_db popular_vote Sido "ascii ''11''" ?ss "fst ?b" "snd ?b"] slow gap_slow_11
  have "winner ?ss = TIE" by blast
  with slow gap_slow_11 have "\<exists>statsByCode sm s. slow_path gap_db popular_vote Sido = Inr (statsByCode, sm) \<and>
        statsByCode (ascii ''11'') = Some s \<and> winner s = TIE \<and> countA s = countB s"
    by (intro exI [of _ "fst ?b"] exI [of _ "snd ?b"] exI [of _ ?ss]) simp
  with fast show ?thesis by blast
qed

section \<open>Properties of the guest merge\<close>

lemma merge_loop_guest_rows:
  assumes "merge_loop u rs (vs, m, s) = Inr (vs', m', s')"
    and "v \<in> set vs'" and "v_guest_token v \<noteq> None"
  shows "v \<in> set vs \<and> v_id v \<notin> fst ` set rs"
  using assms
proof (induction u rs "(vs, m, s)" arbitrary: vs m s rule: merge_loop.induct)
  case (1 u acc)
  then show ?case by simp
next
  case (2 u r_id r_topic_id rs vs m s)
  show ?case
  proof (cases "user_has_vote vs u r_topic_id")
    case True
    with "2.prems" have run: "merge_loop u rs (delete_vote r_id vs, m, s + 1) = Inr (vs', m', s')"
      by simp
    from "2.hyps"(1) [OF True run "2.prems"(2,3)]
    show ?thesis by (auto simp: delete_vote_def)
  next
    case False
    with "2.prems" obtain vs1 where up: "update_vote r_id u vs = Inr vs1"
      and run: "merge_loop u rs (vs1, m + 1, s) = Inr (vs', m', s')"
      by (auto split: sum.splits)
    from up have vs1: "vs1 = map (\<lambda>v. if v_id v = r_id then reassign u v else v) vs"
      by (auto simp: update_vote_def Let_def split: if_splits)
    from "2.hyps"(2) [OF False up run "2.prems"(2,3)]
    have v: "v \<in> set vs1" "v_id v \<notin> fst ` set rs" by auto
    from v(1) obtain w where w: "w \<in> set vs" "v = (if v_id w = r_id then reassign u w else w)"
      unfolding vs1 by auto
    with "2.prems"(3) have "v_id w \<noteq> r_id" by (auto simp: reassign_def)
    with w v(2) show ?thesis by auto
  qed
qed

text \<open>
  Claim C5: after a successful run of \<open>merge_guest_votes_to_user\<close>, a second run with the
  same arguments on the table the first run left returns that table unchanged and the
  counters moved = 0, skipped = 0.
\<close>

theorem C5_merge_idempotent:
  assumes "merge_guest_votes_to_user p_guest_token p_user_id vs = Inr (vs', moved, skipped)"
  shows "merge_guest_votes_to_user p_guest_token p_user_id vs' = Inr (vs', 0, 0)"
proof -
  from assms obtain g u where args: "p_guest_token = Some g" "btrim g \<noteq> []" "p_user_id = Some u"
    and run: "merge_loop u (map (\<lambda>v. (v_id v, v_topic_id v)) (guest_rows g vs)) (vs, 0, 0)
               = Inr (vs', moved, skipped)"
    by (auto simp: merge_guest_votes_to_user_def split: option.splits if_splits)
  have "guest_rows g vs' = []"
  proof (rule ccontr)
    assume "guest_rows g vs' \<noteq> []"
    then obtain v where v: "v \<in> set vs'" "v_guest_token v = Some g" "v_user_id v = None"
      by (auto simp: guest_rows_def filter_empty_conv)
    from merge_loop_guest_rows [OF run v(1)] v(2)
    have "v \<in> set vs" and out: "v_id v \<notin> fst ` set (map (\<lambda>v. (v_id v, v_topic_id v)) (guest_rows g vs))"
      by auto
    with v have "v \<in> set (guest_rows g vs)" by (simp add: guest_rows_def)
    then have "v_id v \<in> fst ` set (map (\<lambda>v. (v_id v, v_topic_id v)) (guest_rows g vs))"
      by (auto simp: image_iff)
    with out show False by simp
  qed
  then show ?thesis
    by (simp add: merge_guest_votes_to_user_def args)
qed
























lemmas merge_example_defs = merge_table_def merged_table_def merge_vote_def ascii_def


lemma merge_table_run:
  "merge_guest_votes_to_user (Some (ascii ''g'')) (Some (ascii ''u'')) merge_table
     = Inr (merged_table, 1, 1)"
  by (simp add: merge_guest_votes_to_user_def guest_rows_def user_has_vote_def update_vote_def
      delete_vote_def reassign_def votes_topic_user_uidx_def btrim_def Let_def merge_example_defs)


text \<open>The merge of the example, run a second time.\<close>

theorem C5_merge_idempotent_witness:
  "merge_guest_votes_to_user (Some (ascii ''g'')) (Some (ascii ''u'')) merged_table
     = Inr (merged_table, 0, 0)"
  by (rule C5_merge_idempotent [OF merge_table_run])


section \<open>Properties of the school rows and of the vote submission\<close>

lemmas submit_example_defs = example_env_def example_item_def example_school_row_def
  example_token_def example_body_def example_stored_vote_def start_db_def voted_db_def
  example_options_def popular_vote_def

lemma example_ensure:
  "ensureSchool (gazetteer_with michuhol_gu) (ascii ''s2'') example_item ([], None)
     = (Inr (ensured example_school_row), [example_school_row],
        snd (readMunicipalities (gazetteer_with michuhol_gu) None))"
proof -
  have res: "resolve_in ms \<lparr>arg_sidoCode = Some (ascii ''11''), arg_sigunguName = None, arg_address = None\<rparr>
          = Inr \<lparr>sigunguCode = None, sigunguName = None\<rparr>" for ms
    by (simp add: resolve_in_def sigungu_candidates_def extractSigunguCandidates_def Let_def)
  show ?thesis
    by (simp add: ensureSchool_def maybeSingle_def ensure_new_def code_or_null_def
        resolveSigunguCode_def split_def Let_def res coalesce_def insert_school_def
        schools_checks_def schools_pkey_def schools_source_school_code_key_def
        schools_parent_fk_def ensured_def example_item_def example_school_row_def)
qed


lemma example_valid: "voteBodySchema example_env (WellTyped example_body) = Some example_body"
  by (simp add: voteBodySchema_def profileSchema_def submit_example_defs ascii_def)

lemma example_profile:
  "profile_from_body example_env None
       \<lparr>pr_birthYear = 2000, pr_gender = ascii ''other'', pr_school = example_item\<rparr> (start_db, None)
     = (Inr \<lparr>vp_birthYear = 2000, vp_gender = ascii ''other'', vp_schoolId = ascii ''s2'',
             vp_aggregateSchoolId = ascii ''s2'', vp_sidoCode = Some (ascii ''11''),
             vp_sigunguCode = Some (ascii ''23030'')\<rparr>,
        start_db\<lparr>db_schools := [example_school_row]\<rparr>,
        snd (readMunicipalities (gazetteer_with michuhol_gu) None))"
proof -
  have env: "municipalities_file example_env = gazetteer_with michuhol_gu"
      "gen_school_id example_env = ascii ''s2''"
    by (simp_all add: example_env_def)
  have db: "db_schools start_db = []" by (simp add: start_db_def)
  show ?thesis
    by (simp add: profile_from_body_def env db example_ensure truthy_def Let_def ensured_def
        example_school_row_def)
qed

lemma example_post:
  "POST example_env (Some (WellTyped example_body)) None (start_db, None)
     = (Status201 example_stored_vote, voted_db,
        snd (readMunicipalities (gazetteer_with michuhol_gu) None))"
proof -
  have body: "b_profile example_body
      = Some \<lparr>pr_birthYear = 2000, pr_gender = ascii ''other'', pr_school = example_item\<rparr>"
      "b_guestToken example_body = Some example_token"
      "b_topicId example_body = popular_vote" "b_optionKey example_body = ascii ''seoul''"
    by (simp_all add: example_body_def)
  have tok: "example_token \<noteq> []" by (simp add: example_token_def ascii_def)
  have opt: "maybeSingle (filter (\<lambda>opt. o_topic_id opt = popular_vote \<and> o_option_key opt = ascii ''seoul'')
                (db_vote_options start_db))
      = OneRow (example_options ! 0)"
    by (simp add: maybeSingle_def start_db_def example_options_def popular_vote_def ascii_def)
  have row: "vote_row example_env None example_body
       \<lparr>vp_birthYear = 2000, vp_gender = ascii ''other'', vp_schoolId = ascii ''s2'',
             vp_aggregateSchoolId = ascii ''s2'', vp_sidoCode = Some (ascii ''11''),
             vp_sigunguCode = Some (ascii ''23030'')\<rparr> = example_stored_vote"
    by (simp add: vote_row_def isUnlimitedAdmin_def truthy_def Let_def body example_stored_vote_def
        example_env_def)
  have ins: "insert_vote example_stored_vote (start_db\<lparr>db_schools := [example_school_row]\<rparr>)
      = Inr voted_db"
    by (simp add: insert_vote_def votes_checks_def votes_identity_check_def votes_pkey_def
        votes_topic_user_uidx_def votes_topic_guest_uidx_def votes_school_fk_def
        votes_topic_option_fk_def Let_def submit_example_defs ascii_def)
  have ex: "existing_vote example_env None example_body (db_votes start_db) = NoRow"
    by (simp add: existing_vote_def isUnlimitedAdmin_def truthy_def Let_def body tok maybeSingle_def
        start_db_def)
  show ?thesis
    by (simp add: POST_def submit_def example_valid Let_def truthy_def body tok opt ex
        example_profile row submit_insert_def ins)
qed


subsection \<open>What a submission writes\<close>

lemma insert_vote_Inr:
  assumes "insert_vote row d = Inr d'"
  shows "d' = d\<lparr>db_votes := db_votes d @ [row]\<rparr>" "votes_checks row"
    "votes_pkey (db_votes d @ [row])" "votes_topic_user_uidx (db_votes d @ [row])"
    "votes_topic_guest_uidx (db_votes d @ [row])"
  using assms by (auto simp: insert_vote_def Let_def split: if_splits)

lemma submit_insert_cases:
  assumes "submit_insert row st = (r, st')"
  shows "(\<exists>d'. r = Status201 row \<and> insert_vote row (fst st) = Inr d' \<and> st' = (d', snd st)) \<or>
         ((\<forall>v. r \<noteq> Status201 v) \<and> st' = st)"
  using assms by (auto simp: submit_insert_def split: sum.splits db_error.splits)

lemma profile_from_body_tables:
  assumes "profile_from_body e uid p st = (r, st')"
  shows "db_votes (fst st') = db_votes (fst st)" "db_vote_options (fst st') = db_vote_options (fst st)"
  using assms
  by (auto simp: profile_from_body_def Let_def split: prod.splits sum.splits if_splits)

lemma submit_cases:
  assumes "submit e rawBody user st = (r, st1)"
  shows "(db_votes (fst st1) = db_votes (fst st) \<and>
          db_vote_options (fst st1) = db_vote_options (fst st) \<and> (\<forall>v. r \<noteq> Status201 v)) \<or>
         (\<exists>body vp d.
            voteBodySchema e rawBody = Some body \<and>
            (truthy (map_option au_id user) \<or> truthy (b_guestToken body)) \<and>
            existing_vote e user body (db_votes (fst st)) = NoRow \<and>
            db_votes d = db_votes (fst st) \<and> db_vote_options d = db_vote_options (fst st) \<and>
            r = Status201 (vote_row e user body vp) \<and>
            insert_vote (vote_row e user body vp) d = Inr (fst st1))"
proof (cases "voteBodySchema e rawBody")
  case None
  with assms show ?thesis by (simp add: submit_def)
next
  case (Some body)
  let ?uid = "map_option au_id user"
  show ?thesis
  proof (cases "\<not> truthy ?uid \<and> \<not> truthy (if truthy ?uid then None else b_guestToken body)")
    case True
    then have "\<not> truthy ?uid" "\<not> truthy (b_guestToken body)" by (auto split: if_splits)
    with assms Some show ?thesis by (simp add: submit_def Let_def)
  next
    case ident: False
    then have id: "truthy ?uid \<or> truthy (b_guestToken body)" by (auto split: if_splits)
    show ?thesis
    proof (cases "maybeSingle (filter (\<lambda>opt. o_topic_id opt = b_topicId body \<and>
                     o_option_key opt = b_optionKey body) (db_vote_options (fst st)))")
      case NoRow
      with assms Some ident show ?thesis by (simp add: submit_def Let_def)
    next
      case ManyRows
      with assms Some ident show ?thesis by (simp add: submit_def Let_def)
    next
      case (OneRow opt)
      show ?thesis
      proof (cases "existing_vote e user body (db_votes (fst st))")
        case (OneRow x)
        with assms Some ident \<open>maybeSingle _ = OneRow opt\<close> show ?thesis
          by (simp add: submit_def Let_def)
      next
        case ManyRows
        with assms Some ident \<open>maybeSingle _ = OneRow opt\<close> show ?thesis
          by (simp add: submit_def Let_def)
      next
        case NoRow
        show ?thesis
        proof (cases "b_profile body")
          case (Some p)
          obtain pr st' where pf: "profile_from_body e ?uid p st = (pr, st')"
            by (cases "profile_from_body e ?uid p st") auto
          note tabs = profile_from_body_tables [OF pf]
          show ?thesis
          proof (cases pr)
            case (Inl response)
            with assms \<open>voteBodySchema e rawBody = Some body\<close> ident \<open>maybeSingle _ = OneRow opt\<close>
              NoRow Some pf
            have "r = response" "st1 = st'" by (simp_all add: submit_def Let_def)
            moreover from pf Inl have "\<forall>v. response \<noteq> Status201 v"
              by (auto simp: profile_from_body_def Let_def split: prod.splits sum.splits)
            ultimately show ?thesis using tabs by simp
          next
            case (Inr vp)
            with assms \<open>voteBodySchema e rawBody = Some body\<close> ident \<open>maybeSingle _ = OneRow opt\<close>
              NoRow Some pf
            have "submit_insert (vote_row e user body vp) st' = (r, st1)"
              by (simp add: submit_def Let_def)
            from submit_insert_cases [OF this] show ?thesis
            proof (elim disjE exE conjE)
              fix d' assume "r = Status201 (vote_row e user body vp)"
                "insert_vote (vote_row e user body vp) (fst st') = Inr d'" "st1 = (d', snd st')"
              with tabs id NoRow \<open>voteBodySchema e rawBody = Some body\<close> show ?thesis
                by (intro disjI2 exI [of _ body] exI [of _ vp] exI [of _ "fst st'"]) simp
            next
              assume "\<forall>v. r \<noteq> Status201 v" "st1 = st'"
              with tabs show ?thesis by simp
            qed
          qed
        next
          case None
          show ?thesis
          proof (cases "profile_from_user ?uid (fst st)")
            case (Inl response)
            with assms \<open>voteBodySchema e rawBody = Some body\<close> ident \<open>maybeSingle _ = OneRow opt\<close>
              NoRow None
            have "r = response" "st1 = st" by (simp_all add: submit_def Let_def)
            moreover from Inl have "\<forall>v. response \<noteq> Status201 v"
              by (auto simp: profile_from_user_def Let_def
                  split: if_splits single.splits option.splits sum.splits)
            ultimately show ?thesis by simp
          next
            case (Inr vp)
            with assms \<open>voteBodySchema e rawBody = Some body\<close> ident \<open>maybeSingle _ = OneRow opt\<close>
              NoRow None
            have "submit_insert (vote_row e user body vp) st = (r, st1)"
              by (simp add: submit_def Let_def)
            from submit_insert_cases [OF this] show ?thesis
            proof (elim disjE exE conjE)
              fix d' assume "r = Status201 (vote_row e user body vp)"
                "insert_vote (vote_row e user body vp) (fst st) = Inr d'" "st1 = (d', snd st)"
              with id NoRow \<open>voteBodySchema e rawBody = Some body\<close> show ?thesis
                by (intro disjI2 exI [of _ body] exI [of _ vp] exI [of _ "fst st"]) simp
            next
              assume "\<forall>v. r \<noteq> Status201 v" "st1 = st"
              then show ?thesis by simp
            qed
          qed
        qed
      qed
    qed
  qed
qed

lemma merge_loop_identity:
  "merge_loop u rs acc = Inr (vs', m', s') \<Longrightarrow> list_all votes_identity_check (fst acc) \<Longrightarrow>
     list_all votes_identity_check vs'"
proof (induction u rs acc rule: merge_loop.induct)
  case (1 p_user_id acc)
  then show ?case by simp
next
  case (2 p_user_id r_id r_topic_id rs vs v_moved v_skipped)
  show ?case
  proof (cases "user_has_vote vs p_user_id r_topic_id")
    case True
    have "list_all votes_identity_check (delete_vote r_id vs)"
      using "2.prems"(2) by (simp add: delete_vote_def list_all_iff)
    with 2 True show ?thesis by simp
  next
    case False
    with "2.prems"(1) obtain vs1 where up: "update_vote r_id p_user_id vs = Inr vs1"
      by (cases "update_vote r_id p_user_id vs") auto
    then have vs1: "vs1 = map (\<lambda>v. if v_id v = r_id then reassign p_user_id v else v) vs"
      by (simp add: update_vote_def Let_def split: if_splits)
    have "votes_identity_check (reassign p_user_id x)" for x
      by (simp add: reassign_def votes_identity_check_def)
    with "2.prems"(2)
    have "\<forall>x \<in> set vs. votes_identity_check (if v_id x = r_id then reassign p_user_id x else x)"
      by (simp add: list_all_iff)
    then have "list_all votes_identity_check vs1"
      unfolding vs1 list_all_iff by (simp only: set_map ball_simps(9))
    with 2 False up show ?thesis by simp
  qed
qed

lemma vote_row_identity:
  "(isUnlimitedAdmin e user \<longrightarrow>
      v_user_id (vote_row e user body vp) = None \<and> v_guest_token (vote_row e user body vp) \<noteq> None) \<and>
   (\<not> isUnlimitedAdmin e user \<and> truthy (map_option au_id user) \<longrightarrow>
      v_user_id (vote_row e user body vp) = map_option au_id user \<and>
      v_guest_token (vote_row e user body vp) = None) \<and>
   (user = None \<longrightarrow>
      v_user_id (vote_row e user body vp) = None \<and>
      v_guest_token (vote_row e user body vp) = b_guestToken body)"
  by (auto simp: vote_row_def Let_def isUnlimitedAdmin_def truthy_def)

text \<open>
  Claim C3: every stored vote row has exactly one of \<open>user_id\<close> and \<open>guest_token\<close>, and
  every write path keeps it so. A submission, whoever sends it and whatever it answers,
  leaves a table whose rows all satisfy the identity check when those of the table before
  did. The row of an accepted submission is appended to the table and satisfies the check:
  for an administrator of the allow-list it has no user and the synthetic guest token, for
  any other signed-in user it has the user and no guest token, and without a user it has
  no user and the guest token of the request. A successful guest-to-user merge likewise
  leaves a table whose rows all satisfy the check.
\<close>

theorem C3_identity_exclusive:
  "(list_all votes_identity_check (db_votes (fst st)) \<longrightarrow>
      list_all votes_identity_check (db_votes (fst (snd (POST e request user st))))) \<and>
   (POST e request user st = (Status201 v, st1) \<longrightarrow>
      db_votes (fst st1) = db_votes (fst st) @ [v] \<and> votes_identity_check v \<and>
      (isUnlimitedAdmin e user \<longrightarrow> v_user_id v = None \<and> v_guest_token v \<noteq> None) \<and>
      (\<not> isUnlimitedAdmin e user \<and> truthy (map_option au_id user) \<longrightarrow>
         v_user_id v = map_option au_id user \<and> v_guest_token v = None) \<and>
      (user = None \<longrightarrow> v_user_id v = None \<and> v_guest_token v \<noteq> None)) \<and>
   (list_all votes_identity_check vs \<and>
    merge_guest_votes_to_user p_guest_token p_user_id vs = Inr (vs', moved, skipped) \<longrightarrow>
      list_all votes_identity_check vs')"
proof (intro conjI impI)
  have created: "db_votes (fst s1) = db_votes (fst st) @ [w] \<and> votes_identity_check w \<and>
      (isUnlimitedAdmin e user \<longrightarrow> v_user_id w = None \<and> v_guest_token w \<noteq> None) \<and>
      (\<not> isUnlimitedAdmin e user \<and> truthy (map_option au_id user) \<longrightarrow>
         v_user_id w = map_option au_id user \<and> v_guest_token w = None) \<and>
      (user = None \<longrightarrow> v_user_id w = None \<and> v_guest_token w \<noteq> None)"
    if run: "POST e request user st = (Status201 w, s1)" for w s1
  proof -
    from run obtain rawBody where req: "request = Some rawBody"
        and sub: "submit e rawBody user st = (Status201 w, s1)"
      by (cases request) (auto simp: POST_def)
    from submit_cases [OF sub] obtain body vp d where b:
        "truthy (map_option au_id user) \<or> truthy (b_guestToken body)"
        "db_votes d = db_votes (fst st)"
        "w = vote_row e user body vp"
        "insert_vote (vote_row e user body vp) d = Inr (fst s1)"
      by auto
    note ins = insert_vote_Inr [OF b(4)]
    from ins(1) b(2,3) have tab: "db_votes (fst s1) = db_votes (fst st) @ [w]" by simp
    from ins(2) b(3) have chk: "votes_identity_check w" by (simp add: votes_checks_def)
    have guest: "v_guest_token w \<noteq> None" if "user = None"
    proof -
      from that b(1) have "truthy (b_guestToken body)" by (simp add: truthy_def)
      then obtain g where "b_guestToken body = Some g"
        by (cases "b_guestToken body") (simp_all add: truthy_def)
      with that vote_row_identity [of e user body vp] b(3) show ?thesis
        by simp
    qed
    from tab chk guest vote_row_identity [of e user body vp] b(3) show ?thesis by auto
  qed
  show "list_all votes_identity_check (db_votes (fst (snd (POST e request user st))))"
    if inv: "list_all votes_identity_check (db_votes (fst st))"
  proof -
    obtain r s1 where run: "POST e request user st = (r, s1)"
      by (cases "POST e request user st") auto
    show ?thesis
    proof (cases "\<exists>w. r = Status201 w")
      case True
      then obtain w where "r = Status201 w" by blast
      with run created [of w s1] inv show ?thesis by simp
    next
      case False
      have "db_votes (fst s1) = db_votes (fst st)"
      proof (cases request)
        case None
        with run show ?thesis by (simp add: POST_def)
      next
        case (Some rawBody)
        with run have "submit e rawBody user st = (r, s1)" by (simp add: POST_def)
        from submit_cases [OF this] False show ?thesis by auto
      qed
      with run inv show ?thesis by simp
    qed
  qed
  show "db_votes (fst st1) = db_votes (fst st) @ [v]" "votes_identity_check v"
    if "POST e request user st = (Status201 v, st1)"
    using created [OF that] by simp_all
  show "v_user_id v = None" "v_guest_token v \<noteq> None"
    if "POST e request user st = (Status201 v, st1)" "isUnlimitedAdmin e user"
    using created [OF that(1)] that(2) by simp_all
  show "v_user_id v = map_option au_id user" "v_guest_token v = None"
    if "POST e request user st = (Status201 v, st1)"
      "\<not> isUnlimitedAdmin e user \<and> truthy (map_option au_id user)"
    using created [OF that(1)] that(2) by simp_all
  show "v_user_id v = None" "v_guest_token v \<noteq> None"
    if "POST e request user st = (Status201 v, st1)" "user = None"
    using created [OF that(1)] that(2) by simp_all
  show "list_all votes_identity_check vs'"
    if "list_all votes_identity_check vs \<and>
        merge_guest_votes_to_user p_guest_token p_user_id vs = Inr (vs', moved, skipped)"
  proof -
    from that obtain g u where
      "merge_loop u (map (\<lambda>v. (v_id v, v_topic_id v)) (guest_rows g vs)) (vs, 0, 0)
         = Inr (vs', moved, skipped)"
      by (auto simp: merge_guest_votes_to_user_def split: option.splits if_splits)
    from merge_loop_identity [OF this] that show ?thesis by simp
  qed
qed


theorem C3_identity_exclusive_witness:
  "list_all votes_identity_check (db_votes voted_db) \<and>
   db_votes voted_db = [example_stored_vote] \<and>
   v_user_id example_stored_vote = None \<and> v_guest_token example_stored_vote \<noteq> None \<and>
   list_all votes_identity_check merged_table"
proof -
  let ?cache = "snd (readMunicipalities (gazetteer_with michuhol_gu) None)"
  note T = C3_identity_exclusive [of "(start_db, None)" example_env "Some (WellTyped example_body)"
      None example_stored_vote "(voted_db, ?cache)" merge_table "Some (ascii ''g'')"
      "Some (ascii ''u'')" merged_table 1 1]
  have start: "list_all votes_identity_check (db_votes (fst (start_db, None :: municipality list option)))"
    by (simp add: start_db_def)
  have tab: "list_all votes_identity_check merge_table"
    by (simp add: votes_identity_check_def merge_table_def merge_vote_def)
  have votes: "db_votes start_db = []" by (simp add: start_db_def)
  from T start example_post have 1: "list_all votes_identity_check (db_votes voted_db)" by simp
  from T example_post votes have 2: "db_votes voted_db = [example_stored_vote]"
    "v_user_id example_stored_vote = None" "v_guest_token example_stored_vote \<noteq> None"
    by simp_all
  from T tab merge_table_run have 3: "list_all votes_identity_check merged_table" by simp
  from 1 2 3 show ?thesis by simp
qed

subsection \<open>A second vote\<close>











subsection \<open>Municipality codes of school rows\<close>










end
